theory Spec2Isabelle
  imports Main "HOL-Library.AList"
begin

section \<open>JSON values and task objects\<close>

text \<open>
  The fields of a task object are modelled as a map from field names to JSON scalars.
  \<open>JDate t\<close> stands for the ISO-8601 string that \<^verbatim>\<open>new Date(t).toISOString()\<close> writes
  for the instant \<open>t\<close> (milliseconds since the epoch); \<open>JStr\<close> stands for every string
  that \<^verbatim>\<open>Date\<close> does not parse.
\<close>

datatype jval = JNull | JBool bool | JNum int | JStr string | JDate int

type_synonym task = "string \<rightharpoonup> jval"

text \<open>JavaScript truthiness of a property read; \<open>None\<close> is \<^verbatim>\<open>undefined\<close>.\<close>

fun truthy :: "jval option \<Rightarrow> bool" where
  "truthy None = False"
| "truthy (Some JNull) = False"
| "truthy (Some (JBool b)) = b"
| "truthy (Some (JNum n)) = (n \<noteq> 0)"
| "truthy (Some (JStr s)) = (s \<noteq> [])"
| "truthy (Some (JDate t)) = True"

text \<open>
  \<^verbatim>\<open>new Date(v).getTime()\<close>; \<open>None\<close> is \<^verbatim>\<open>NaN\<close>. A number is a time value when it is
  within the range of \<^verbatim>\<open>Date\<close>.
\<close>

fun getTime :: "jval \<Rightarrow> int option" where
  "getTime (JDate t) = Some t"
| "getTime (JStr s) = None"
| "getTime (JNum n) = (if \<bar>n\<bar> \<le> 8640000000000000 then Some n else None)"
| "getTime (JBool b) = Some (if b then 1 else 0)"
| "getTime JNull = Some 0"

text \<open>
  The truthy values \<^verbatim>\<open>JSON.parse\<close> can return from a file:
  \<^item> \<open>Obj t\<close>, an object with the fields \<open>t\<close>;
  \<^item> \<open>Arr p\<close>, an array; \<open>p\<close> are the named properties the program has set on it,
    which \<^verbatim>\<open>JSON.stringify\<close> does not write;
  \<^item> \<open>Prim\<close>, a number, \<^verbatim>\<open>true\<close> or a non-empty string: the properties the program
    reads are \<^verbatim>\<open>undefined\<close> there, and an assignment to one throws a \<^verbatim>\<open>TypeError\<close>
    (the modules are ES modules, so the code is strict).
\<close>

datatype parsed = Prim | Arr task | Obj task

datatype exn = WriteFailed | TypeError

fun get_prop :: "parsed \<Rightarrow> string \<Rightarrow> jval option" where
  "get_prop Prim k = None"
| "get_prop (Arr p) k = p k"
| "get_prop (Obj t) k = t k"

text \<open>
  A run of property assignments and deletions that begins with an assignment; \<open>f\<close> is
  what it does to the properties.
\<close>

fun assign :: "(task \<Rightarrow> task) \<Rightarrow> parsed \<Rightarrow> exn + parsed" where
  "assign f Prim = Inl TypeError"
| "assign f (Arr p) = Inr (Arr (f p))"
| "assign f (Obj t) = Inr (Obj (f t))"

section \<open>Paths and files (lib/db.js)\<close>

text \<open>
  A path is the list of the names from the root to the node, and a flag that tells
  whether it is written with a trailing slash (POSIX paths). \<^verbatim>\<open>path.join\<close> normalises: it drops
  empty names and \<^verbatim>\<open>.\<close>, and \<^verbatim>\<open>..\<close> removes the name before it (at the root it is
  dropped).
\<close>

type_synonym path = "string list \<times> bool"

fun segments :: "string \<Rightarrow> string \<Rightarrow> string list" where
  "segments cur [] = [rev cur]"
| "segments cur (c # cs) =
     (if c = CHR ''/'' then rev cur # segments [] cs else segments (c # cur) cs)"

fun normalize :: "string list \<Rightarrow> string list \<Rightarrow> string list" where
  "normalize stack [] = rev stack"
| "normalize stack (seg # segs) =
     (if seg = [] \<or> seg = ''.'' then normalize stack segs
      else if seg = ''..''
           then normalize (case stack of [] \<Rightarrow> [] | name # below \<Rightarrow> below) segs
           else normalize (seg # stack) segs)"

definition trailing_slash :: "string \<Rightarrow> bool" where
  "trailing_slash str = (case rev str of [] \<Rightarrow> False | c # cs \<Rightarrow> c = CHR ''/'')"

text \<open>\<^verbatim>\<open>path.join(base, filename)\<close> for an absolute, normalised \<open>base\<close>.\<close>

definition join :: "string list \<Rightarrow> string \<Rightarrow> path" where
  "join base filename = (normalize (rev base) (segments [] filename), trailing_slash filename)"

text \<open>
  What a file holds, as \<^verbatim>\<open>readJsonFile\<close> sees it: \<open>Unreadable\<close> when the read or
  \<^verbatim>\<open>JSON.parse\<close> throws or the value is falsy, else the kind of the value.
\<close>

datatype content = Unreadable | PrimitiveJson | ArrayJson | ObjectJson task

datatype node = Dir | File content

fun parse :: "content \<Rightarrow> parsed option" where
  "parse Unreadable = None"
| "parse PrimitiveJson = Some Prim"
| "parse ArrayJson = Some (Arr Map.empty)"
| "parse (ObjectJson t) = Some (Obj t)"

fun stringify :: "parsed \<Rightarrow> content" where
  "stringify Prim = PrimitiveJson"
| "stringify (Arr p) = ArrayJson"
| "stringify (Obj t) = ObjectJson t"

text \<open>
  The file system: \<open>tasksPath\<close> is the absolute path of the tasks directory, \<open>nodes\<close>
  the directories and files by their paths, in the order a listing gives them. The
  root is a directory. \<open>writable p\<close> tells whether the system lets
  \<^verbatim>\<open>fs.writeFileSync\<close> and \<^verbatim>\<open>fs.unlinkSync\<close> change the file at \<open>p\<close> (the path is
  accepted, the directory above it exists, permissions and space allow it).
\<close>

record disk =
  tasksPath :: "string list"
  nodes :: "(string list \<times> node) list"
  writable :: "string list \<Rightarrow> bool"

definition node_at :: "disk \<Rightarrow> string list \<Rightarrow> node option" where
  "node_at s p = (if p = [] then Some Dir else map_of (nodes s) p)"

text \<open>\<^verbatim>\<open>join(getTasksPath(), filename)\<close>\<close>

definition taskPath :: "disk \<Rightarrow> string \<Rightarrow> path" where
  "taskPath s filename = join (tasksPath s) filename"

text \<open>
  \<^verbatim>\<open>fs.existsSync\<close>: a path written with a trailing slash exists when it is a
  directory.
\<close>

definition fileExists :: "disk \<Rightarrow> path \<Rightarrow> bool" where
  "fileExists s pth =
     (case node_at s (fst pth) of
        None \<Rightarrow> False
      | Some Dir \<Rightarrow> True
      | Some (File c) \<Rightarrow> \<not> snd pth)"

text \<open>
  \<^verbatim>\<open>readJsonFile(path, null)\<close>: \<open>None\<close> is \<^verbatim>\<open>null\<close>, the default value, also returned
  when \<^verbatim>\<open>fs.readFileSync\<close> throws (a directory) or \<^verbatim>\<open>JSON.parse\<close> does.
\<close>

definition readJsonFile :: "disk \<Rightarrow> path \<Rightarrow> parsed option" where
  "readJsonFile s pth =
     (if fileExists s pth
      then (case node_at s (fst pth) of
              None \<Rightarrow> None
            | Some Dir \<Rightarrow> None
            | Some (File c) \<Rightarrow> parse c)
      else None)"

text \<open>
  Whether \<^verbatim>\<open>fs.writeFileSync\<close> succeeds at a path: not at a directory, not at a path
  written with a trailing slash, and only where the system lets it.
\<close>

definition writes_ok :: "disk \<Rightarrow> path \<Rightarrow> bool" where
  "writes_ok s pth =
     (if snd pth then False
      else (case node_at s (fst pth) of
              Some Dir \<Rightarrow> False
            | _ \<Rightarrow> writable s (fst pth)))"

text \<open>\<^verbatim>\<open>writeJsonFile\<close>: \<open>Inl WriteFailed\<close> is the exception of \<^verbatim>\<open>fs.writeFileSync\<close>.\<close>

definition writeJsonFile :: "path \<Rightarrow> parsed \<Rightarrow> disk \<Rightarrow> exn + disk" where
  "writeJsonFile pth data s =
     (if writes_ok s pth
      then Inr (s\<lparr>nodes := AList.update (fst pth) (File (stringify data)) (nodes s)\<rparr>)
      else Inl WriteFailed)"

text \<open>
  \<^verbatim>\<open>deleteFile\<close> catches the exception of \<^verbatim>\<open>fs.unlinkSync\<close> (a directory, or a file
  the system does not let go) and returns false.
\<close>

definition deleteFile :: "path \<Rightarrow> disk \<Rightarrow> bool \<times> disk" where
  "deleteFile pth s =
     (if fileExists s pth
      then (case node_at s (fst pth) of
              Some (File c) \<Rightarrow>
                if writable s (fst pth)
                then (True, s\<lparr>nodes := AList.delete (fst pth) (nodes s)\<rparr>)
                else (False, s)
            | _ \<Rightarrow> (False, s))
      else (False, s))"

definition endsWith :: "string \<Rightarrow> string \<Rightarrow> bool" where
  "endsWith str suf =
     (length suf \<le> length str \<and> drop (length str - length suf) str = suf)"

text \<open>
  \<^verbatim>\<open>fs.readdirSync(tasksPath)\<close>: the names of the nodes directly in the tasks
  directory; it throws (\<open>None\<close>) when the path is not a directory.
\<close>

definition readdirSync :: "disk \<Rightarrow> string list option" where
  "readdirSync s =
     (case node_at s (tasksPath s) of
        Some Dir \<Rightarrow>
          Some (List.map_filter
                  (\<lambda>(p, n). case rev p of
                               [] \<Rightarrow> None
                             | name # dir \<Rightarrow>
                                 if rev dir = tasksPath s then Some name else None)
                  (nodes s))
      | _ \<Rightarrow> None)"

section \<open>Task locking (lib/task-lock.js)\<close>

definition STALE_LOCK_MS :: int where
  "STALE_LOCK_MS = 30 * 60 * 1000"

text \<open>\<open>now\<close> is the reading of \<^verbatim>\<open>Date.now()\<close>. A comparison with \<^verbatim>\<open>NaN\<close> is false.\<close>

definition isLockStale :: "parsed \<Rightarrow> int \<Rightarrow> bool" where
  "isLockStale t now =
     (if \<not> truthy (get_prop t ''claimed_at'') then False
      else (case get_prop t ''claimed_at'' of
              None \<Rightarrow> False
            | Some v \<Rightarrow> (case getTime v of
                          None \<Rightarrow> False
                        | Some claimedAt \<Rightarrow> now - claimedAt > STALE_LOCK_MS)))"

definition getTask :: "disk \<Rightarrow> string \<Rightarrow> parsed option" where
  "getTask s filename = readJsonFile s (taskPath s filename)"

text \<open>
  The objects the operations return:
  \<^item> \<open>Failure e\<close> is \<^verbatim>\<open>{ success: false, error: e }\<close>;
  \<^item> \<open>ClaimRefused e by at\<close> is \<^verbatim>\<open>{ success: false, error: e, claimed_by, claimed_at }\<close>;
  \<^item> \<open>ClaimOk t at\<close> is \<^verbatim>\<open>{ success: true, task: t, locked: true, claimed_at: at }\<close>;
  \<^item> \<open>ReleaseOk\<close> is \<^verbatim>\<open>{ success: true }\<close>;
  \<^item> \<open>CompleteOk\<close> is \<^verbatim>\<open>{ success: true, error: null }\<close>;
  \<^item> \<open>CreateOk ex f\<close> is \<^verbatim>\<open>{ success: true, already_exists: ex, filename: f }\<close>.
\<close>

datatype result =
    Failure string
  | ClaimRefused string "jval option" "jval option"
  | ClaimOk parsed jval
  | ReleaseOk
  | CompleteOk
  | CreateOk bool string

text \<open>
  \<^verbatim>\<open>claimTask\<close>, lines 119 to 139: the existence check, the read and the lock check.
  \<open>Inl r\<close> is an early return, \<open>Inr t\<close> the value read into memory.
\<close>

definition claimTask_read :: "string \<Rightarrow> int \<Rightarrow> disk \<Rightarrow> result + parsed" where
  "claimTask_read filename now s =
     (if \<not> fileExists s (taskPath s filename) then Inl (Failure ''Task not found'')
      else (case readJsonFile s (taskPath s filename) of
              None \<Rightarrow> Inl (Failure ''Failed to read task file'')
            | Some t \<Rightarrow>
                if get_prop t ''status'' = Some (JStr ''in_progress'') \<and> \<not> isLockStale t now
                then Inl (ClaimRefused ''Task already claimed''
                            (get_prop t ''claimed_by'') (get_prop t ''claimed_at''))
                else Inr t))"

text \<open>
  \<^verbatim>\<open>claimTask\<close>, lines 141 to 156: the update of the value in memory and the write.
  \<open>now'\<close> is the reading of the clock at line 142.
\<close>

definition claimTask_write ::
  "string \<Rightarrow> jval \<Rightarrow> int \<Rightarrow> parsed \<Rightarrow> disk \<Rightarrow> (exn + result) \<times> disk" where
  "claimTask_write filename agentId now' t s =
     (case assign (\<lambda>f. f(''status'' \<mapsto> JStr ''in_progress'',
                          ''claimed_at'' \<mapsto> JDate now',
                          ''claimed_by'' \<mapsto> agentId,
                          ''filename'' \<mapsto> JStr filename)) t of
        Inl e \<Rightarrow> (Inl e, s)
      | Inr t' \<Rightarrow>
          (case writeJsonFile (taskPath s filename) t' s of
             Inl e \<Rightarrow> (Inl e, s)
           | Inr s' \<Rightarrow> (Inr (ClaimOk t' (JDate now')), s')))"

text \<open>
  \<^verbatim>\<open>claimTask(filename, agentId)\<close>; \<open>agentId\<close> is \<open>JNull\<close> when the caller gives none.
  \<open>now\<close> is the clock read by \<^verbatim>\<open>isLockStale\<close>, \<open>now'\<close> the one written as
  \<^verbatim>\<open>claimed_at\<close>.
\<close>

definition claimTask ::
  "string \<Rightarrow> jval \<Rightarrow> int \<Rightarrow> int \<Rightarrow> disk \<Rightarrow> (exn + result) \<times> disk" where
  "claimTask filename agentId now now' s =
     (case claimTask_read filename now s of
        Inl r \<Rightarrow> (Inr r, s)
      | Inr t \<Rightarrow> claimTask_write filename agentId now' t s)"

text \<open>
  Each agent runs its own server process (the server speaks over stdio), and the
  processes share the tasks directory. A process claiming a task is at one of three
  points: before the read, between the read and the write (holding the value it has
  read), or finished with the value it returns.
\<close>

datatype claim_pc = Start | HasRead parsed | Finished "exn + result"

definition claim_step :: "string \<Rightarrow> jval \<Rightarrow> int \<Rightarrow> claim_pc \<Rightarrow> disk \<Rightarrow> claim_pc \<times> disk" where
  "claim_step filename agentId now pc s =
     (case pc of
        Start \<Rightarrow>
          (case claimTask_read filename now s of
             Inl r \<Rightarrow> (Finished (Inr r), s)
           | Inr t \<Rightarrow> (HasRead t, s))
      | HasRead t \<Rightarrow>
          (case claimTask_write filename agentId now t s of
             (r, s') \<Rightarrow> (Finished r, s'))
      | Finished r \<Rightarrow> (Finished r, s))"

text \<open>
  A schedule lists which process takes its next step, and the reading of its clock
  there. The processes are given by their agent ids.
\<close>

fun run_claims ::
  "string \<Rightarrow> (nat \<times> int) list \<Rightarrow> (jval \<times> claim_pc) list \<Rightarrow> disk
     \<Rightarrow> (jval \<times> claim_pc) list \<times> disk" where
  "run_claims filename [] ws s = (ws, s)"
| "run_claims filename ((i, now) # sched) ws s =
     (if i < length ws
      then (case claim_step filename (fst (ws ! i)) now (snd (ws ! i)) s of
              (pc', s') \<Rightarrow> run_claims filename sched (ws[i := (fst (ws ! i), pc')]) s')
      else run_claims filename sched ws s)"

definition releaseTask :: "string \<Rightarrow> disk \<Rightarrow> (exn + result) \<times> disk" where
  "releaseTask filename s =
     (if \<not> fileExists s (taskPath s filename) then (Inr (Failure ''Task not found''), s)
      else (case readJsonFile s (taskPath s filename) of
              None \<Rightarrow> (Inr (Failure ''Failed to read task file''), s)
            | Some t \<Rightarrow>
                (case assign (\<lambda>f. (f(''status'' \<mapsto> JStr ''pending''))
                                    (''claimed_at'' := None, ''claimed_by'' := None)) t of
                   Inl e \<Rightarrow> (Inl e, s)
                 | Inr t' \<Rightarrow>
                     (case writeJsonFile (taskPath s filename) t' s of
                        Inl e \<Rightarrow> (Inl e, s)
                      | Inr s' \<Rightarrow> (Inr ReleaseOk, s')))))"

definition completeTask :: "string \<Rightarrow> disk \<Rightarrow> (exn + result) \<times> disk" where
  "completeTask filename s =
     (if \<not> fileExists s (taskPath s filename) then (Inr (Failure ''Task not found''), s)
      else (case deleteFile (taskPath s filename) s of
              (deleted, s') \<Rightarrow>
                (Inr (if deleted then CompleteOk
                      else Failure ''Failed to delete task file''), s')))"

text \<open>
  \<^verbatim>\<open>createTask(taskData, filename)\<close>: the spread copies the fields of \<open>taskData\<close>,
  then \<^verbatim>\<open>createdAt\<close> and \<^verbatim>\<open>status\<close> are set.
\<close>

definition createTask :: "task \<Rightarrow> string \<Rightarrow> int \<Rightarrow> disk \<Rightarrow> (exn + result) \<times> disk" where
  "createTask taskData filename now s =
     (if fileExists s (taskPath s filename) then (Inr (CreateOk True filename), s)
      else (let t = taskData(''createdAt'' \<mapsto> JDate now, ''status'' \<mapsto> JStr ''pending'')
            in (case writeJsonFile (taskPath s filename) (Obj t) s of
                  Inl e \<Rightarrow> (Inl e, s)
                | Inr s' \<Rightarrow> (Inr (CreateOk False filename), s'))))"

text \<open>
  \<^verbatim>\<open>Array.prototype.sort\<close> with a comparator, as a stable insertion sort. \<open>le a b\<close>
  tells that the comparator's value at \<open>(a, b)\<close> is not positive; a comparator value
  \<^verbatim>\<open>NaN\<close> counts as zero.
\<close>

fun insort_cmp :: "('a \<Rightarrow> 'a \<Rightarrow> bool) \<Rightarrow> 'a \<Rightarrow> 'a list \<Rightarrow> 'a list" where
  "insort_cmp le x [] = [x]"
| "insort_cmp le x (y # ys) = (if le x y then x # y # ys else y # insort_cmp le x ys)"

definition sort_cmp :: "('a \<Rightarrow> 'a \<Rightarrow> bool) \<Rightarrow> 'a list \<Rightarrow> 'a list" where
  "sort_cmp le xs = foldr (insort_cmp le) xs []"

text \<open>\<^verbatim>\<open>new Date(a.createdAt || 0).getTime()\<close>\<close>

definition createdAt_time :: "parsed \<Rightarrow> int option" where
  "createdAt_time a =
     (if truthy (get_prop a ''createdAt'')
      then (case get_prop a ''createdAt'' of None \<Rightarrow> getTime (JNum 0) | Some v \<Rightarrow> getTime v)
      else getTime (JNum 0))"

text \<open>The comparator \<^verbatim>\<open>aTime - bTime\<close> of \<^verbatim>\<open>listTasksSync\<close>.\<close>

definition createdAt_le :: "parsed \<Rightarrow> parsed \<Rightarrow> bool" where
  "createdAt_le a b =
     (case (createdAt_time a, createdAt_time b) of
        (Some x, Some y) \<Rightarrow> x - y \<le> 0
      | _ \<Rightarrow> True)"

text \<open>Truthiness of a value that is a string or \<^verbatim>\<open>null\<close>: a non-empty string.\<close>

fun truthy_string :: "string option \<Rightarrow> bool" where
  "truthy_string None = False"
| "truthy_string (Some v) = (v \<noteq> [])"

text \<open>
  Lines 82 to 86 of \<^verbatim>\<open>listTasksSync\<close>: the effective status of a task, and whether the
  task is marked \<^verbatim>\<open>is_stale\<close>.
\<close>

definition effectiveStatus :: "bool \<Rightarrow> parsed \<Rightarrow> int \<Rightarrow> jval \<times> bool" where
  "effectiveStatus includeStale t now =
     (let es = (case get_prop t ''status'' of
                  None \<Rightarrow> JStr ''pending''
                | Some v \<Rightarrow> if truthy (Some v) then v else JStr ''pending'')
      in if includeStale \<and> es = JStr ''in_progress'' \<and> isLockStale t now
         then (JStr ''pending'', True)
         else (es, False))"

text \<open>
  The body of the loop of \<^verbatim>\<open>listTasksSync\<close> for one value read: \<open>Inl e\<close> is the
  exception of the assignment \<^verbatim>\<open>task.filename = filename\<close>, \<open>Inr None\<close> is
  \<^verbatim>\<open>continue\<close>, \<open>Inr (Some e)\<close> the value pushed.
\<close>

definition list_entry ::
  "string option \<Rightarrow> string option \<Rightarrow> bool \<Rightarrow> int \<Rightarrow> string \<Rightarrow> parsed
     \<Rightarrow> exn + parsed option" where
  "list_entry type status includeStale now filename t0 =
     (case assign (\<lambda>f. f(''filename'' \<mapsto> JStr filename)) t0 of
        Inl e \<Rightarrow> Inl e
      | Inr t1 \<Rightarrow>
          (case effectiveStatus includeStale t1 now of
             (es, stale) \<Rightarrow>
               (case (if stale then assign (\<lambda>f. f(''is_stale'' \<mapsto> JBool True)) t1
                      else Inr t1) of
                  Inl e \<Rightarrow> Inl e
                | Inr t2 \<Rightarrow>
                    if truthy_string type \<and> get_prop t2 ''type'' \<noteq> map_option JStr type
                    then Inr None
                    else if truthy_string status \<and> Some es \<noteq> map_option JStr status
                    then Inr None
                    else Inr (Some t2))))"

text \<open>
  The loop of \<^verbatim>\<open>listTasksSync\<close> over the file names; an exception ends it. \<open>nowAt f\<close>
  is the reading of \<^verbatim>\<open>Date.now()\<close> when the loop examines the file \<open>f\<close>.
\<close>

fun list_loop ::
  "string option \<Rightarrow> string option \<Rightarrow> bool \<Rightarrow> (string \<Rightarrow> int) \<Rightarrow> disk \<Rightarrow> string list
     \<Rightarrow> exn + parsed list" where
  "list_loop type status includeStale nowAt s [] = Inr []"
| "list_loop type status includeStale nowAt s (f # fs) =
     (case getTask s f of
        None \<Rightarrow> list_loop type status includeStale nowAt s fs
      | Some t \<Rightarrow>
          (case list_entry type status includeStale (nowAt f) f t of
             Inl e \<Rightarrow> Inl e
           | Inr None \<Rightarrow> list_loop type status includeStale nowAt s fs
           | Inr (Some e) \<Rightarrow>
               (case list_loop type status includeStale nowAt s fs of
                  Inl x \<Rightarrow> Inl x
                | Inr es \<Rightarrow> Inr (e # es))))"

text \<open>
  \<^verbatim>\<open>listTasksSync({ type, status, includeStale })\<close>. When the tasks directory is
  missing or cannot be listed the result is empty. The function writes no file: it changes only the
  values it has parsed, and the file system is returned as it was.
\<close>

definition listTasksSync ::
  "string option \<Rightarrow> string option \<Rightarrow> bool \<Rightarrow> (string \<Rightarrow> int) \<Rightarrow> disk
     \<Rightarrow> (exn + parsed list) \<times> disk" where
  "listTasksSync type status includeStale nowAt s =
     (if fileExists s (tasksPath s, False)
      then (case readdirSync s of
              None \<Rightarrow> (Inr [], s)
            | Some names \<Rightarrow>
                (case list_loop type status includeStale nowAt s
                        (filter (\<lambda>f. endsWith f ''.json'') names) of
                   Inl e \<Rightarrow> (Inl e, s)
                 | Inr tasks \<Rightarrow> (Inr (sort_cmp createdAt_le tasks), s)))
      else (Inr [], s))"

subsection \<open>Example data: a research task\<close>

definition acme :: string where
  "acme = ''research-acme-ai.json''"

definition acme_data :: task where
  "acme_data = [''type'' \<mapsto> JStr ''research'', ''company'' \<mapsto> JStr ''Acme AI'']"

definition acme_path :: "string list" where
  "acme_path = [''srv'', ''prowla'', ''tasks'', acme]"

definition disk_with :: "node option \<Rightarrow> disk" where
  "disk_with n =
     \<lparr>tasksPath = [''srv'', ''prowla'', ''tasks''],
      nodes = [([''srv''], Dir), ([''srv'', ''prowla''], Dir),
               ([''srv'', ''prowla'', ''tasks''], Dir)]
              @ (case n of None \<Rightarrow> [] | Some x \<Rightarrow> [(acme_path, x)]),
      writable = (\<lambda>p. True)\<rparr>"

definition empty_disk :: disk where
  "empty_disk = disk_with None"

definition pending_task :: task where
  "pending_task = acme_data(''createdAt'' \<mapsto> JDate 500, ''status'' \<mapsto> JStr ''pending'')"

definition pending_disk :: disk where
  "pending_disk = disk_with (Some (File (ObjectJson pending_task)))"

definition claimed_task :: task where
  "claimed_task = acme_data(''createdAt'' \<mapsto> JDate 500, ''status'' \<mapsto> JStr ''in_progress'',
     ''claimed_at'' \<mapsto> JDate 1000, ''claimed_by'' \<mapsto> JStr ''worker-A'')"

definition claimed_disk :: disk where
  "claimed_disk = disk_with (Some (File (ObjectJson claimed_task)))"

section \<open>Event bus (lib/event-emitter.js)\<close>

record event =
  event_id :: string
  event_type :: string
  timestamp :: int
  payload :: task

record subscription =
  sub_id :: string
  event_types :: "string list"
  webhook_url :: "string option"
  callback_id :: "string option"
  created_at :: int
  last_event_id :: "string option"

text \<open>
  The module's state. \<open>subscriptions\<close> and \<open>pendingPolls\<close> are JavaScript Maps, kept
  in insertion order; a pending poll is its id and its \<^verbatim>\<open>subscription_id\<close>.
\<close>

record bus =
  eventStore :: "event list"
  subscriptions :: "(string \<times> subscription) list"
  pendingPolls :: "(string \<times> string) list"

definition EVENT_TYPES :: "string list" where
  "EVENT_TYPES = [''job.created'', ''job.updated'', ''job.deleted'', ''task.created'',
     ''task.claimed'', ''task.completed'', ''research.saved'', ''materials.saved'']"

definition MAX_EVENTS :: nat where
  "MAX_EVENTS = 1000"

definition EVENT_RETENTION_MS :: int where
  "EVENT_RETENTION_MS = 60 * 60 * 1000"

text \<open>\<open>now\<close> is the reading of \<^verbatim>\<open>Date.now()\<close>; \<^verbatim>\<open>slice(-n)\<close> keeps the last \<open>n\<close>.\<close>

definition pruneEvents :: "int \<Rightarrow> bus \<Rightarrow> bus" where
  "pruneEvents now s =
     (let cutoff = now - EVENT_RETENTION_MS;
          kept = filter (\<lambda>e. timestamp e > cutoff) (eventStore s)
      in s\<lparr>eventStore := (if length kept > MAX_EVENTS
                           then drop (length kept - MAX_EVENTS) kept
                           else kept)\<rparr>)"

text \<open>
  One turn of the loop of \<^verbatim>\<open>notifyPollers\<close>. Resolving a poll with \<^verbatim>\<open>[event]\<close>
  moves the cursor of its subscription and removes the poll; the resolutions are
  collected as pairs of the poll id and the events delivered.
\<close>

definition notify_one ::
  "event \<Rightarrow> string \<times> string \<Rightarrow> (string \<times> event list) list \<times> bus
     \<Rightarrow> (string \<times> event list) list \<times> bus" where
  "notify_one ev p acc =
     (case acc of (out, s) \<Rightarrow>
        (case map_of (subscriptions s) (snd p) of
           None \<Rightarrow> (out, s)
         | Some sub \<Rightarrow>
             if event_type ev \<in> set (event_types sub)
             then (out @ [(fst p, [ev])],
                   s\<lparr>subscriptions :=
                        AList.update (snd p) (sub\<lparr>last_event_id := Some (event_id ev)\<rparr>)
                          (subscriptions s),
                      pendingPolls := AList.delete (fst p) (pendingPolls s)\<rparr>)
             else (out, s)))"

definition notifyPollers :: "event \<Rightarrow> bus \<Rightarrow> (string \<times> event list) list \<times> bus" where
  "notifyPollers ev s = fold (notify_one ev) (pendingPolls s) ([], s)"

text \<open>
  \<^verbatim>\<open>notifyWebhooks\<close> runs after \<^verbatim>\<open>emit\<close> has returned: the subscriptions it posts the
  event to, and the update of the cursor once a post has succeeded.
\<close>

definition notifyWebhooks :: "event \<Rightarrow> bus \<Rightarrow> (string \<times> string) list" where
  "notifyWebhooks ev s =
     List.map_filter
       (\<lambda>(subId, sub).
          if \<not> truthy_string (webhook_url sub) then None
          else if event_type ev \<notin> set (event_types sub) then None
          else map_option (\<lambda>url. (subId, url)) (webhook_url sub))
       (subscriptions s)"

definition webhook_posted :: "string \<Rightarrow> event \<Rightarrow> bus \<Rightarrow> bus" where
  "webhook_posted subId ev s =
     (case map_of (subscriptions s) subId of
        None \<Rightarrow> s
      | Some sub \<Rightarrow>
          s\<lparr>subscriptions :=
               AList.update subId (sub\<lparr>last_event_id := Some (event_id ev)\<rparr>)
                 (subscriptions s)\<rparr>)"

text \<open>
  What \<^verbatim>\<open>emit\<close> does besides changing the state: the event it returns, the polls it
  has resolved, the webhook posts it has started, and whether it has warned of an
  unknown type.
\<close>

record emitted =
  emitted_event :: event
  resolved :: "(string \<times> event list) list"
  posted :: "(string \<times> string) list"
  warned :: bool

text \<open>
  \<^verbatim>\<open>emit(type, payload)\<close>. \<open>newId\<close> is the value of \<^verbatim>\<open>generateId()\<close>, \<open>now\<close> the
  clock read for the timestamp and \<open>pnow\<close> the clock read by \<^verbatim>\<open>pruneEvents\<close>.
\<close>

definition emit :: "string \<Rightarrow> task \<Rightarrow> string \<Rightarrow> int \<Rightarrow> int \<Rightarrow> bus \<Rightarrow> emitted \<times> bus" where
  "emit type pl newId now pnow s =
     (let ev = \<lparr>event_id = newId, event_type = type, timestamp = now, payload = pl\<rparr>;
          s1 = s\<lparr>eventStore := eventStore s @ [ev]\<rparr>;
          s2 = pruneEvents pnow s1;
          (out, s3) = notifyPollers ev s2
      in (\<lparr>emitted_event = ev, resolved = out, posted = notifyWebhooks ev s3,
           warned = (type \<notin> set EVENT_TYPES)\<rparr>, s3))"

datatype sub_result =
    SubFailure string
  | SubOk string "string list"

definition subscribe ::
  "string list \<Rightarrow> string option \<Rightarrow> string option \<Rightarrow> string \<Rightarrow> int \<Rightarrow> bus
     \<Rightarrow> sub_result \<times> bus" where
  "subscribe types url cb newId now s =
     (let validTypes = filter (\<lambda>t. t \<in> set EVENT_TYPES) types
      in if length validTypes = 0 then (SubFailure ''No valid event types specified'', s)
         else (let sub = \<lparr>sub_id = newId, event_types = validTypes, webhook_url = url,
                           callback_id = cb, created_at = now, last_event_id = None\<rparr>
               in (SubOk newId validTypes,
                   s\<lparr>subscriptions := AList.update newId sub (subscriptions s)\<rparr>)))"

text \<open>
  \<^verbatim>\<open>unsubscribe\<close>: the pending polls of the subscription are resolved with no events
  and removed. \<open>None\<close> is \<^verbatim>\<open>{ success: true }\<close>, \<open>Some e\<close> the error.
\<close>

definition unsubscribe ::
  "string \<Rightarrow> bus \<Rightarrow> string option \<times> (string \<times> event list) list \<times> bus" where
  "unsubscribe subscriptionId s =
     (if map_of (subscriptions s) subscriptionId = None
      then (Some ''Subscription not found'', [], s)
      else (None,
            map (\<lambda>p. (fst p, [])) (filter (\<lambda>p. snd p = subscriptionId) (pendingPolls s)),
            s\<lparr>subscriptions := AList.delete subscriptionId (subscriptions s),
               pendingPolls := filter (\<lambda>p. snd p \<noteq> subscriptionId) (pendingPolls s)\<rparr>))"

text \<open>\<^verbatim>\<open>slice(0, limit)\<close>: a negative limit counts from the end.\<close>

definition slice0 :: "int \<Rightarrow> 'a list \<Rightarrow> 'a list" where
  "slice0 limit xs =
     (if limit \<ge> 0 then take (nat limit) xs else take (nat (int (length xs) + limit)) xs)"

definition listEvents :: "jval option \<Rightarrow> string option \<Rightarrow> int \<Rightarrow> bus \<Rightarrow> event list" where
  "listEvents since type limit s =
     (let events = eventStore s;
          events1 = (if truthy since
                     then (case since of
                             None \<Rightarrow> events
                           | Some v \<Rightarrow>
                               (case getTime v of
                                  None \<Rightarrow> []
                                | Some sinceTime \<Rightarrow>
                                    filter (\<lambda>e. timestamp e > sinceTime) events))
                     else events);
          events2 = (if truthy_string type
                     then filter (\<lambda>e. Some (event_type e) = type) events1
                     else events1);
          events3 = sort_cmp (\<lambda>a b. timestamp b - timestamp a \<le> 0) events2
      in slice0 limit events3)"

text \<open>
  What the promise of \<^verbatim>\<open>poll\<close> is when the call returns:
  \<^item> \<open>PollError e evs\<close> is resolved with \<^verbatim>\<open>{ error: e, events: evs }\<close>;
  \<^item> \<open>PollEvents evs\<close> is resolved with \<^verbatim>\<open>{ events: evs }\<close>;
  \<^item> \<open>PollSuspended pollId\<close> is pending, registered in \<open>pendingPolls\<close> under \<open>pollId\<close>.
\<close>

datatype poll_result =
    PollError string "event list"
  | PollEvents "event list"
  | PollSuspended string

fun poll_events :: "poll_result \<Rightarrow> event list" where
  "poll_events (PollError e evs) = evs"
| "poll_events (PollEvents evs) = evs"
| "poll_events (PollSuspended pollId) = []"

text \<open>Lines 298 to 300 of \<^verbatim>\<open>poll\<close>: the timestamp of the event the cursor names.\<close>

definition lastEventTime :: "subscription \<Rightarrow> bus \<Rightarrow> int option" where
  "lastEventTime sub s =
     (if truthy_string (last_event_id sub)
      then (case find (\<lambda>e. Some (event_id e) = last_event_id sub) (eventStore s) of
              None \<Rightarrow> None
            | Some e \<Rightarrow> Some (timestamp e))
      else None)"

text \<open>Lines 302 to 306 of \<^verbatim>\<open>poll\<close>.\<close>

definition pendingEvents :: "subscription \<Rightarrow> bus \<Rightarrow> event list" where
  "pendingEvents sub s =
     filter (\<lambda>e. if event_type e \<notin> set (event_types sub) then False
                 else (case lastEventTime sub s of
                         None \<Rightarrow> True
                       | Some t \<Rightarrow> if timestamp e \<le> t then False else True))
       (eventStore s)"

text \<open>
  \<^verbatim>\<open>poll(subscriptionId, timeoutMs)\<close>. \<open>pollId\<close> is the value of \<^verbatim>\<open>generateId()\<close>.
  The timer is not part of the state: its firing is the step \<open>poll_timeout\<close>.
\<close>

definition poll :: "string \<Rightarrow> string \<Rightarrow> bus \<Rightarrow> poll_result \<times> bus" where
  "poll subscriptionId pollId s =
     (case map_of (subscriptions s) subscriptionId of
        None \<Rightarrow> (PollError ''Subscription not found'' [], s)
      | Some sub \<Rightarrow>
          (let pending = pendingEvents sub s
           in if length pending > 0
              then (PollEvents pending,
                    s\<lparr>subscriptions :=
                         AList.update subscriptionId
                           (sub\<lparr>last_event_id := Some (event_id (last pending))\<rparr>)
                           (subscriptions s)\<rparr>)
              else (PollSuspended pollId,
                    s\<lparr>pendingPolls :=
                         AList.update pollId subscriptionId (pendingPolls s)\<rparr>)))"

text \<open>
  The timer of a suspended poll fires: the poll is removed and resolved with no
  events. A poll that was resolved before has cleared its timer (\<open>None\<close>).
\<close>

definition poll_timeout :: "string \<Rightarrow> bus \<Rightarrow> poll_result option \<times> bus" where
  "poll_timeout pollId s =
     (if map_of (pendingPolls s) pollId = None then (None, s)
      else (Some (PollEvents []), s\<lparr>pendingPolls := AList.delete pollId (pendingPolls s)\<rparr>))"

subsection \<open>A run of the bus within one millisecond\<close>

definition empty_bus :: bus where
  "empty_bus = \<lparr>eventStore = [], subscriptions = [], pendingPolls = []\<rparr>"

definition E0 :: event where
  "E0 = \<lparr>event_id = ''e0'', event_type = ''task.created'', timestamp = 1000,
          payload = Map.empty\<rparr>"

definition E1 :: event where
  "E1 = \<lparr>event_id = ''e1'', event_type = ''task.created'', timestamp = 1000,
          payload = Map.empty\<rparr>"

definition E2 :: event where
  "E2 = \<lparr>event_id = ''e2'', event_type = ''job.created'', timestamp = 1000,
          payload = Map.empty\<rparr>"

text \<open>
  A subscription to \<^verbatim>\<open>task.created\<close>; \<open>E0\<close> is emitted and polled, which puts the
  cursor at \<open>E0\<close>; then \<open>E1\<close> and \<open>E2\<close> are emitted in the same millisecond as \<open>E0\<close>.
\<close>

definition bus_subscribed :: bus where
  "bus_subscribed = snd (subscribe [''task.created''] None None ''S1'' 0 empty_bus)"

definition bus_E0 :: bus where
  "bus_E0 = snd (emit ''task.created'' Map.empty ''e0'' 1000 1000 bus_subscribed)"

definition bus_cursor_E0 :: bus where
  "bus_cursor_E0 = snd (poll ''S1'' ''p1'' bus_E0)"

definition bus_E1 :: bus where
  "bus_E1 = snd (emit ''task.created'' Map.empty ''e1'' 1000 1000 bus_cursor_E0)"

definition bus_E2 :: bus where
  "bus_E2 = snd (emit ''job.created'' Map.empty ''e2'' 1000 1000 bus_E1)"

subsection \<open>A run of the bus in which the clock is set back\<close>

definition Ea :: event where
  "Ea = \<lparr>event_id = ''ea'', event_type = ''task.created'', timestamp = 7000000,
          payload = Map.empty\<rparr>"

definition Eb :: event where
  "Eb = \<lparr>event_id = ''eb'', event_type = ''task.created'', timestamp = 1000,
          payload = Map.empty\<rparr>"

definition Ec :: event where
  "Ec = \<lparr>event_id = ''ec'', event_type = ''job.created'', timestamp = 3601001,
          payload = Map.empty\<rparr>"

text \<open>
  \<open>Ea\<close> is emitted while the clock is ahead, \<open>Eb\<close> after it has been set back. A poll
  returns both and puts the cursor at \<open>Eb\<close>. When \<open>Ec\<close> is emitted an hour later, \<open>Eb\<close>
  is pruned and \<open>Ea\<close> is retained.
\<close>

definition bus_Ea :: bus where
  "bus_Ea = snd (emit ''task.created'' Map.empty ''ea'' 7000000 7000000 bus_subscribed)"

definition bus_Eb :: bus where
  "bus_Eb = snd (emit ''task.created'' Map.empty ''eb'' 1000 1000 bus_Ea)"

definition bus_cursor_Eb :: bus where
  "bus_cursor_Eb = snd (poll ''S1'' ''p1'' bus_Eb)"

definition bus_Ec :: bus where
  "bus_Ec = snd (emit ''job.created'' Map.empty ''ec'' 3601001 3601001 bus_cursor_Eb)"

definition sub_S1 :: "string option \<Rightarrow> subscription" where
  "sub_S1 cursor = \<lparr>sub_id = ''S1'', event_types = [''task.created''], webhook_url = None,
     callback_id = None, created_at = 0, last_event_id = cursor\<rparr>"

section \<open>Properties\<close>

subsection \<open>Helper facts\<close>

lemma set_insort_cmp: "set (insort_cmp le x xs) = insert x (set xs)"
  by (induction xs) auto

lemma set_sort_cmp: "set (sort_cmp le xs) = set xs"
  unfolding sort_cmp_def by (induction xs) (auto simp: set_insort_cmp)

lemma length_insort_cmp: "length (insort_cmp le x xs) = Suc (length xs)"
  by (induction xs) auto

lemma length_sort_cmp: "length (sort_cmp le xs) = length xs"
  unfolding sort_cmp_def by (induction xs) (auto simp: length_insort_cmp)

lemma set_map_filter: "set (List.map_filter g xs) = {y. \<exists>x \<in> set xs. g x = Some y}"
  by (induction xs) (auto simp: List.map_filter_simps split: option.splits)

lemma segments_plain: "CHR ''/'' \<notin> set f \<Longrightarrow> segments cur f = [rev cur @ f]"
  by (induction f arbitrary: cur) auto

lemma trailing_slash_plain: "CHR ''/'' \<notin> set f \<Longrightarrow> \<not> trailing_slash f"
  by (cases "rev f") (auto simp: trailing_slash_def dest: arg_cong [where f = set])

lemma taskPath_plain:
  assumes "CHR ''/'' \<notin> set f" and "f \<noteq> []" and "f \<noteq> ''.''" and "f \<noteq> ''..''"
  shows "taskPath s f = (tasksPath s @ [f], False)"
  using assms by (simp add: taskPath_def join_def segments_plain trailing_slash_plain)

lemma endsWith_json_name:
  "endsWith f ''.json'' \<Longrightarrow> f \<noteq> [] \<and> f \<noteq> ''.'' \<and> f \<noteq> ''..''"
  by (auto simp: endsWith_def)

lemma taskPath_write [simp]:
  "writeJsonFile pth v s = Inr s' \<Longrightarrow> taskPath s' f = taskPath s f"
  by (auto simp: writeJsonFile_def taskPath_def split: if_splits)

lemma writes_ok_not_root: "writes_ok s pth \<Longrightarrow> fst pth \<noteq> [] \<and> \<not> snd pth"
  by (auto simp: writes_ok_def node_at_def split: if_splits)

lemma node_at_write:
  "writeJsonFile pth v s = Inr s' \<Longrightarrow>
   node_at s' q = (if q = fst pth then Some (File (stringify v)) else node_at s q)"
  by (auto simp: writeJsonFile_def node_at_def update_conv' dest: writes_ok_not_root
      split: if_splits)

lemma fileExists_write:
  "writeJsonFile pth v s = Inr s' \<Longrightarrow> fileExists s' pth"
  by (frule node_at_write [where q = "fst pth"])
     (auto simp: fileExists_def writeJsonFile_def dest: writes_ok_not_root split: if_splits)

lemma readJsonFile_write:
  "writeJsonFile pth v s = Inr s' \<Longrightarrow> readJsonFile s' pth = parse (stringify v)"
  by (frule fileExists_write, frule node_at_write [where q = "fst pth"])
     (simp add: readJsonFile_def)

lemma getTask_write:
  "writeJsonFile (taskPath s f) v s = Inr s' \<Longrightarrow> getTask s' f = parse (stringify v)"
  by (frule readJsonFile_write, frule taskPath_write [where f = f]) (simp add: getTask_def)

lemma write_ok: "writes_ok s pth \<Longrightarrow> \<exists>s'. writeJsonFile pth v s = Inr s'"
  by (simp add: writeJsonFile_def)

lemma readJsonFile_node:
  "readJsonFile s pth = Some v \<Longrightarrow>
   \<exists>c. node_at s (fst pth) = Some (File c) \<and> parse c = Some v \<and> \<not> snd pth \<and> fst pth \<noteq> []"
  by (auto simp: readJsonFile_def fileExists_def node_at_def
      split: if_splits option.splits node.splits)

lemma readJsonFile_fileExists: "readJsonFile s pth = Some v \<Longrightarrow> fileExists s pth"
  by (auto simp: readJsonFile_def split: if_splits)

lemma getTask_fileExists: "getTask s f = Some v \<Longrightarrow> fileExists s (taskPath s f)"
  by (simp add: getTask_def readJsonFile_fileExists)

lemma record_writes_ok:
  "readJsonFile s pth = Some v \<Longrightarrow> writes_ok s pth = writable s (fst pth)"
  by (drule readJsonFile_node) (auto simp: writes_ok_def)

lemma isLockStale_JDate:
  "get_prop t ''claimed_at'' = Some (JDate T) \<Longrightarrow> isLockStale t now = (T + STALE_LOCK_MS < now)"
  by (auto simp: isLockStale_def)

lemma parse_Obj: "parse c = Some (Obj t) \<Longrightarrow> c = ObjectJson t"
  by (cases c) auto

lemma deleteFile_True:
  assumes "deleteFile pth s = (True, s')"
  shows "s' = s\<lparr>nodes := AList.delete (fst pth) (nodes s)\<rparr> \<and> writable s (fst pth)
    \<and> \<not> snd pth \<and> fst pth \<noteq> [] \<and> fileExists s pth"
  using assms
  by (auto simp: deleteFile_def fileExists_def node_at_def
      split: if_splits option.splits node.splits)

lemma getTask_in_readdir:
  assumes g: "getTask s f = Some v"
    and plain: "CHR ''/'' \<notin> set f" "f \<noteq> []" "f \<noteq> ''.''" "f \<noteq> ''..''"
    and dir: "readdirSync s = Some names"
  shows "f \<in> set names"
proof -
  have tp: "taskPath s f = (tasksPath s @ [f], False)"
    using plain by (rule taskPath_plain)
  from g obtain c where "node_at s (tasksPath s @ [f]) = Some (File c)"
    using readJsonFile_node [of s "taskPath s f" v] by (auto simp: getTask_def tp)
  then have "(tasksPath s @ [f], File c) \<in> set (nodes s)"
    by (auto simp: node_at_def dest: map_of_SomeD)
  moreover have "names = List.map_filter
                  (\<lambda>(p, n). case rev p of
                               [] \<Rightarrow> None
                             | name # dir \<Rightarrow>
                                 if rev dir = tasksPath s then Some name else None)
                  (nodes s)"
    using dir by (auto simp: readdirSync_def split: option.splits node.splits)
  ultimately show ?thesis
    by (auto simp: set_map_filter intro!: bexI [of _ "(tasksPath s @ [f], File c)"])
qed

lemma list_entry_throws: "list_entry type status inc now f v = Inl e \<Longrightarrow> v = Prim"
  by (cases v) (auto simp: list_entry_def split: prod.splits if_splits)

lemma list_loop_returns:
  "\<forall>f \<in> set names. getTask s f \<noteq> Some Prim \<Longrightarrow>
   \<exists>l. list_loop type status inc nowAt s names = Inr l"
proof (induction names)
  case Nil
  then show ?case by simp
next
  case (Cons f fs)
  then obtain l where l: "list_loop type status inc nowAt s fs = Inr l" by auto
  show ?case
  proof (cases "getTask s f")
    case None
    then show ?thesis using l by simp
  next
    case (Some v)
    with Cons.prems have "v \<noteq> Prim" by auto
    then obtain r where "list_entry type status inc (nowAt f) f v = Inr r"
      using list_entry_throws [of type status inc "nowAt f" f v]
      by (cases "list_entry type status inc (nowAt f) f v") auto
    then show ?thesis using Some l by (cases r) auto
  qed
qed

lemma list_loop_mem:
  "list_loop type status inc nowAt s names = Inr l \<Longrightarrow> f \<in> set names \<Longrightarrow>
   getTask s f = Some v \<Longrightarrow> list_entry type status inc (nowAt f) f v = Inr (Some e) \<Longrightarrow>
   e \<in> set l"
  by (induction names arbitrary: l)
     (auto split: option.splits sum.splits)

lemma list_loop_from:
  "list_loop type status inc nowAt s names = Inr l \<Longrightarrow> e \<in> set l \<Longrightarrow>
   \<exists>f \<in> set names. \<exists>v. getTask s f = Some v
      \<and> list_entry type status inc (nowAt f) f v = Inr (Some e)"
  by (induction names arbitrary: l)
     (auto split: option.splits sum.splits)

lemma list_entry_filename:
  "list_entry type status inc now f v = Inr (Some e) \<Longrightarrow> get_prop e ''filename'' = Some (JStr f)"
  by (cases v) (auto simp: list_entry_def split: prod.splits if_splits)

lemma listTasksSync_dir:
  assumes "readdirSync s = Some names"
  shows "fst (listTasksSync type status inc nowAt s)
    = (case list_loop type status inc nowAt s (filter (\<lambda>f. endsWith f ''.json'') names) of
         Inl e \<Rightarrow> Inl e
       | Inr tasks \<Rightarrow> Inr (sort_cmp createdAt_le tasks))"
proof -
  have "node_at s (tasksPath s) = Some Dir"
    using assms by (auto simp: readdirSync_def split: option.splits node.splits)
  then have "fileExists s (tasksPath s, False)" by (simp add: fileExists_def)
  then show ?thesis using assms by (simp add: listTasksSync_def split: sum.splits)
qed

lemma listTasksSync_same: "snd (listTasksSync type status inc nowAt s) = s"
  by (simp add: listTasksSync_def split: option.splits sum.splits)

text \<open>\<^verbatim>\<open>path.join\<close> on keys that are not plain names.\<close>

lemma join_examples:
  "join [''srv'', ''prowla'', ''tasks''] [] = ([''srv'', ''prowla'', ''tasks''], False)
   \<and> join [''srv'', ''prowla'', ''tasks''] ''.'' = ([''srv'', ''prowla'', ''tasks''], False)
   \<and> join [''srv'', ''prowla'', ''tasks''] ''..'' = ([''srv'', ''prowla''], False)
   \<and> join [''srv'', ''prowla'', ''tasks''] ''../config/profile.json''
       = ([''srv'', ''prowla'', ''config'', ''profile.json''], False)
   \<and> join [''srv'', ''prowla'', ''tasks''] ''a//b/./c/../d.json''
       = ([''srv'', ''prowla'', ''tasks'', ''a'', ''b'', ''d.json''], False)
   \<and> join [''srv'', ''prowla'', ''tasks''] ''../../../../x'' = ([''x''], False)
   \<and> join [''srv'', ''prowla'', ''tasks''] ''/etc/'' = ([''srv'', ''prowla'', ''tasks'', ''etc''], True)"
  by (simp add: join_def trailing_slash_def)

subsection \<open>The example file system\<close>

lemma taskPath_acme: "taskPath (disk_with n) acme = (acme_path, False)"
  by (simp add: taskPath_plain acme_def acme_path_def disk_with_def)

lemma node_at_acme: "node_at (disk_with n) acme_path = n"
  by (cases n) (simp_all add: node_at_def disk_with_def acme_path_def)

lemma update_acme:
  "(disk_with n)\<lparr>nodes := AList.update acme_path x (nodes (disk_with n))\<rparr> = disk_with (Some x)"
  by (cases n) (simp_all add: disk_with_def acme_path_def)

lemma delete_acme:
  "(disk_with n)\<lparr>nodes := AList.delete acme_path (nodes (disk_with n))\<rparr> = disk_with None"
  by (cases n) (simp_all add: disk_with_def acme_path_def)

lemma writable_acme: "writable (disk_with n) p"
  by (simp add: disk_with_def)

lemma getTask_acme: "getTask (disk_with (Some (File c))) acme = parse c"
  by (simp add: getTask_def readJsonFile_def fileExists_def taskPath_acme node_at_acme)

lemma fileExists_acme:
  "fileExists (disk_with n) (acme_path, False) = (n \<noteq> None)"
  by (cases n) (auto simp: fileExists_def node_at_acme split: node.splits)

lemma writes_ok_acme:
  "writes_ok (disk_with n) (acme_path, False) = (n \<noteq> Some Dir)"
  by (cases n) (auto simp: writes_ok_def node_at_acme writable_acme split: node.splits)

lemma readdir_acme: "readdirSync (disk_with (Some x)) = Some [acme]"
  by (simp add: readdirSync_def disk_with_def node_at_def acme_path_def List.map_filter_simps)

lemmas task_defs = taskPath_acme node_at_acme update_acme delete_acme writable_acme
  empty_disk_def pending_disk_def claimed_disk_def pending_task_def claimed_task_def
  claimTask_def claimTask_read_def claimTask_write_def claim_step_def
  fileExists_def readJsonFile_def writes_ok_def writeJsonFile_def deleteFile_def
  isLockStale_def STALE_LOCK_MS_def getTask_def Let_def

text \<open>
  Keys that name no record. The empty key is joined to the tasks directory itself,
  which exists: \<^verbatim>\<open>claimTask\<close> and \<^verbatim>\<open>releaseTask\<close> fail to read it, \<^verbatim>\<open>completeTask\<close>
  fails to delete it, and \<^verbatim>\<open>createTask\<close> reports that it exists already.
\<close>

lemma directory_key:
  "fileExists empty_disk (taskPath empty_disk [])
   \<and> fst (claimTask [] a 1 2 empty_disk) = Inr (Failure ''Failed to read task file'')
   \<and> fst (releaseTask [] empty_disk) = Inr (Failure ''Failed to read task file'')
   \<and> fst (completeTask [] empty_disk) = Inr (Failure ''Failed to delete task file'')
   \<and> fst (createTask d [] 1 empty_disk) = Inr (CreateOk True [])"
  by (simp add: empty_disk_def disk_with_def taskPath_def join_def trailing_slash_def
      fileExists_def node_at_def readJsonFile_def claimTask_def claimTask_read_def
      releaseTask_def completeTask_def deleteFile_def createTask_def)

text \<open>
  A file that holds a number, \<^verbatim>\<open>true\<close> or a non-empty string: the first assignment
  to a property throws in \<^verbatim>\<open>claimTask\<close>, in \<^verbatim>\<open>releaseTask\<close> and in the loop of
  \<^verbatim>\<open>listTasksSync\<close>.
\<close>

lemma primitive_file:
  "fst (claimTask acme a 1 2 (disk_with (Some (File PrimitiveJson)))) = Inl TypeError
   \<and> fst (releaseTask acme (disk_with (Some (File PrimitiveJson)))) = Inl TypeError
   \<and> fst (listTasksSync None None True (\<lambda>f. 1) (disk_with (Some (File PrimitiveJson))))
       = Inl TypeError"
proof -
  have r: "readdirSync (disk_with (Some (File PrimitiveJson))) = Some [acme]"
    by (simp add: readdirSync_def disk_with_def node_at_def acme_path_def
        List.map_filter_simps)
  have e: "endsWith acme ''.json''"
    by (simp add: endsWith_def acme_def)
  show ?thesis
    by (simp add: listTasksSync_dir [OF r] e)
       (simp add: task_defs releaseTask_def list_entry_def)
qed

subsection \<open>Claiming across processes\<close>

text \<open>
  A process that takes its two steps without another process in between does what
  \<^verbatim>\<open>claimTask\<close> does.
\<close>

lemma run_claims_atomic:
  "run_claims filename [(0, now), (0, now')] [(agentId, Start)] s
     = ([(agentId, Finished (fst (claimTask filename agentId now now' s)))],
        snd (claimTask filename agentId now now' s))"
  by (auto simp: claim_step_def claimTask_def split: sum.splits prod.splits)

text \<open>
  Claims that come one after the other: once a claim of a task object has succeeded,
  a claim made no later than \<open>STALE_LOCK_MS\<close> after it is refused, and the refusal
  carries the id and the claim time of the first.
\<close>

lemma claimTask_read_not_ok: "claimTask_read filename now s \<noteq> Inl (ClaimOk t at)"
  by (simp add: claimTask_read_def split: option.splits)

lemma claim_then_claim_refused:
  assumes ok: "fst (claimTask filename a now now' s) = Inr (ClaimOk (Obj t) at)"
    and fresh: "m - now' \<le> STALE_LOCK_MS"
  shows "claimTask filename b m m' (snd (claimTask filename a now now' s))
    = (Inr (ClaimRefused ''Task already claimed'' (Some a) (Some (JDate now'))),
       snd (claimTask filename a now now' s))"
proof -
  from ok obtain v where rd: "claimTask_read filename now s = Inr v"
    using claimTask_read_not_ok [of filename now s "Obj t" at]
    by (auto simp: claimTask_def split: sum.splits)
  from ok rd obtain s' where
    w: "writeJsonFile (taskPath s filename) (Obj t) s = Inr s'"
    and t: "get_prop (Obj t) ''status'' = Some (JStr ''in_progress'')"
      "get_prop (Obj t) ''claimed_at'' = Some (JDate now')"
      "get_prop (Obj t) ''claimed_by'' = Some a"
    by (cases v) (auto simp: claimTask_def claimTask_write_def split: sum.splits)
  have s': "snd (claimTask filename a now now' s) = s'"
    using ok rd w by (cases v) (auto simp: claimTask_def claimTask_write_def split: sum.splits)
  have g: "getTask s' filename = Some (Obj t)"
    using getTask_write [OF w] by simp
  have fresh': "\<not> isLockStale (Obj t) m"
    using fresh t(2) by (simp add: isLockStale_JDate)
  have "claimTask_read filename m s'
      = Inl (ClaimRefused ''Task already claimed'' (Some a) (Some (JDate now')))"
    using g getTask_fileExists [OF g] fresh' t
    by (simp add: claimTask_read_def getTask_def)
  then have "claimTask filename b m m' s'
      = (Inr (ClaimRefused ''Task already claimed'' (Some a) (Some (JDate now'))), s')"
    by (simp add: claimTask_def)
  then show ?thesis
    by (simp only: s')
qed

text \<open>
  C1 (at most one claim among concurrent claims): the code does not have the property.
  Two processes claim the pending task of the example. Both read the file before
  either writes it, so both pass the lock check, both write, and both return success;
  the file ends up naming the second writer. Neither receives the refusal that carries
  the other's id and claim time.
\<close>

theorem claim_race_both_succeed:
  "run_claims acme [(0, 1000), (1, 1000), (0, 1001), (1, 1002)]
     [(JStr ''worker-A'', Start), (JStr ''worker-B'', Start)] pending_disk
   = ([(JStr ''worker-A'', Finished (Inr (ClaimOk
          (Obj (pending_task(''status'' \<mapsto> JStr ''in_progress'',
             ''claimed_at'' \<mapsto> JDate 1001, ''claimed_by'' \<mapsto> JStr ''worker-A'',
             ''filename'' \<mapsto> JStr acme))) (JDate 1001)))),
       (JStr ''worker-B'', Finished (Inr (ClaimOk
          (Obj (pending_task(''status'' \<mapsto> JStr ''in_progress'',
             ''claimed_at'' \<mapsto> JDate 1002, ''claimed_by'' \<mapsto> JStr ''worker-B'',
             ''filename'' \<mapsto> JStr acme))) (JDate 1002))))],
      disk_with (Some (File (ObjectJson
          (pending_task(''status'' \<mapsto> JStr ''in_progress'',
             ''claimed_at'' \<mapsto> JDate 1002, ''claimed_by'' \<mapsto> JStr ''worker-B'',
             ''filename'' \<mapsto> JStr acme))))))"
  by (simp add: task_defs acme_data_def)

subsection \<open>Staleness\<close>

text \<open>
  C3 (staleness reclaim): a record that is in progress and was claimed at \<open>T\<close>, stored
  in the tasks directory under a name that ends in \<^verbatim>\<open>.json\<close>. The directory can be
  listed and none of its \<^verbatim>\<open>.json\<close> files holds a primitive value (the listing would
  throw there). In a listing with \<open>includeStale\<close> taken after \<open>T + STALE_LOCK_MS\<close> the
  record has the effective status pending: it is listed, with \<^verbatim>\<open>is_stale\<close> set, under
  no status filter and under the filter pending, and it is not listed under the filter
  in progress. The listed object keeps the status field of the stored record. The
  listing leaves the file system and the stored record as they were. A claim after it
  succeeds and stores the record as claimed by the new agent at the time of the claim.
\<close>

theorem stale_reclaim:
  assumes rec: "getTask s filename = Some (Obj t)"
    and st: "t ''status'' = Some (JStr ''in_progress'')"
    and at: "t ''claimed_at'' = Some (JDate T)"
    and late: "T + STALE_LOCK_MS < nowAt filename"
    and json: "endsWith filename ''.json''"
    and plain: "CHR ''/'' \<notin> set filename"
    and dir: "readdirSync s = Some names"
    and noprim: "\<forall>f \<in> set names. endsWith f ''.json'' \<longrightarrow> getTask s f \<noteq> Some Prim"
    and ty: "\<not> truthy_string type \<or> t ''type'' = map_option JStr type"
    and stf: "\<not> truthy_string status \<or> status = Some ''pending''"
    and late': "T + STALE_LOCK_MS < now"
    and wr: "writable s (fst (taskPath s filename))"
  shows "effectiveStatus True (Obj (t(''filename'' \<mapsto> JStr filename))) (nowAt filename)
           = (JStr ''pending'', True)
    \<and> (\<exists>l. fst (listTasksSync type status True nowAt s) = Inr l
          \<and> Obj (t(''filename'' \<mapsto> JStr filename, ''is_stale'' \<mapsto> JBool True)) \<in> set l)
    \<and> (t(''filename'' \<mapsto> JStr filename, ''is_stale'' \<mapsto> JBool True)) ''status''
         = Some (JStr ''in_progress'')
    \<and> (\<exists>l. fst (listTasksSync type (Some ''in_progress'') True nowAt s) = Inr l
          \<and> (\<forall>e \<in> set l. get_prop e ''filename'' \<noteq> Some (JStr filename)))
    \<and> snd (listTasksSync type status True nowAt s) = s
    \<and> getTask (snd (listTasksSync type status True nowAt s)) filename = Some (Obj t)
    \<and> fst (claimTask filename agentId now now' (snd (listTasksSync type status True nowAt s)))
        = Inr (ClaimOk (Obj (t(''status'' \<mapsto> JStr ''in_progress'',
                                 ''claimed_at'' \<mapsto> JDate now',
                                 ''claimed_by'' \<mapsto> agentId, ''filename'' \<mapsto> JStr filename)))
                       (JDate now'))
    \<and> getTask (snd (claimTask filename agentId now now'
                      (snd (listTasksSync type status True nowAt s)))) filename
        = Some (Obj (t(''status'' \<mapsto> JStr ''in_progress'', ''claimed_at'' \<mapsto> JDate now',
                        ''claimed_by'' \<mapsto> agentId, ''filename'' \<mapsto> JStr filename)))"
proof -
  let ?t1 = "t(''filename'' \<mapsto> JStr filename)"
  let ?e = "t(''filename'' \<mapsto> JStr filename, ''is_stale'' \<mapsto> JBool True)"
  let ?c = "t(''status'' \<mapsto> JStr ''in_progress'', ''claimed_at'' \<mapsto> JDate now',
              ''claimed_by'' \<mapsto> agentId, ''filename'' \<mapsto> JStr filename)"
  let ?names = "filter (\<lambda>f. endsWith f ''.json'') names"
  have es: "effectiveStatus True (Obj ?t1) (nowAt filename) = (JStr ''pending'', True)"
    using st at late by (simp add: effectiveStatus_def isLockStale_JDate)
  have entry: "list_entry type status True (nowAt filename) filename (Obj t) = Inr (Some (Obj ?e))"
    using es ty stf by (cases status; cases type) (auto simp: list_entry_def)
  have noentry: "list_entry type (Some ''in_progress'') True (nowAt filename) filename (Obj t)
      \<noteq> Inr (Some e)" for e
    using es by (auto simp: list_entry_def)
  have own: "?e ''status'' = Some (JStr ''in_progress'')"
    using st by simp
  note nm = endsWith_json_name [OF json]
  have mem: "filename \<in> set ?names"
    using getTask_in_readdir [OF rec plain _ _ _ dir] nm json by simp
  have np: "\<forall>f \<in> set ?names. getTask s f \<noteq> Some Prim"
    using noprim by simp
  obtain l where l: "list_loop type status True nowAt s ?names = Inr l"
    using list_loop_returns [OF np] by blast
  have inl: "\<exists>l. fst (listTasksSync type status True nowAt s) = Inr l \<and> Obj ?e \<in> set l"
    using list_loop_mem [OF l mem rec entry]
    by (simp add: listTasksSync_dir [OF dir] l set_sort_cmp)
  obtain l2 where l2: "list_loop type (Some ''in_progress'') True nowAt s ?names = Inr l2"
    using list_loop_returns [OF np] by blast
  have other: "get_prop e ''filename'' \<noteq> Some (JStr filename)" if "e \<in> set l2" for e
  proof -
    from list_loop_from [OF l2 that] obtain g v where g: "getTask s g = Some v"
      and le: "list_entry type (Some ''in_progress'') True (nowAt g) g v = Inr (Some e)"
      by blast
    have "g \<noteq> filename"
      using g le rec noentry [of e] by auto
    then show ?thesis
      using list_entry_filename [OF le] by simp
  qed
  have notl: "\<exists>l. fst (listTasksSync type (Some ''in_progress'') True nowAt s) = Inr l
          \<and> (\<forall>e \<in> set l. get_prop e ''filename'' \<noteq> Some (JStr filename))"
    using other by (simp add: listTasksSync_dir [OF dir] l2 set_sort_cmp)
  have same: "snd (listTasksSync type status True nowAt s) = s"
    by (rule listTasksSync_same)
  have rd0: "readJsonFile s (taskPath s filename) = Some (Obj t)"
    using rec by (simp add: getTask_def)
  have rd: "claimTask_read filename now s = Inr (Obj t)"
    using rd0 readJsonFile_fileExists [OF rd0] at late'
    by (simp add: claimTask_read_def isLockStale_JDate)
  have "writes_ok s (taskPath s filename)"
    using wr record_writes_ok [OF rd0] by simp
  then obtain s' where w: "writeJsonFile (taskPath s filename) (Obj ?c) s = Inr s'"
    using write_ok by blast
  have cl: "claimTask filename agentId now now' s = (Inr (ClaimOk (Obj ?c) (JDate now')), s')"
    using rd w by (simp add: claimTask_def claimTask_write_def)
  have stored: "getTask s' filename = Some (Obj ?c)"
    using getTask_write [OF w] by simp
  show ?thesis
    using es inl own notl rec cl stored by (simp add: same)
qed

theorem stale_reclaim_witness:
  "getTask claimed_disk acme = Some (Obj claimed_task)
   \<and> claimed_task ''status'' = Some (JStr ''in_progress'')
   \<and> claimed_task ''claimed_at'' = Some (JDate 1000)
   \<and> 1000 + STALE_LOCK_MS < (1801001 :: int)
   \<and> endsWith acme ''.json''
   \<and> CHR ''/'' \<notin> set acme
   \<and> readdirSync claimed_disk = Some [acme]
   \<and> getTask claimed_disk acme \<noteq> Some Prim
   \<and> fst (listTasksSync (Some ''research'') (Some ''pending'') True
             (\<lambda>f. 1801001) claimed_disk)
        = Inr [Obj (claimed_task(''filename'' \<mapsto> JStr acme, ''is_stale'' \<mapsto> JBool True))]
   \<and> fst (listTasksSync (Some ''research'') (Some ''in_progress'') True
             (\<lambda>f. 1801001) claimed_disk) = Inr []
   \<and> snd (listTasksSync (Some ''research'') (Some ''pending'') True
             (\<lambda>f. 1801001) claimed_disk) = claimed_disk
   \<and> fst (claimTask acme (JStr ''worker-B'') 1801002 1801003
             (snd (listTasksSync (Some ''research'') (Some ''pending'') True
                     (\<lambda>f. 1801001) claimed_disk)))
        = Inr (ClaimOk (Obj (claimed_task(''status'' \<mapsto> JStr ''in_progress'',
                          ''claimed_at'' \<mapsto> JDate 1801003,
                          ''claimed_by'' \<mapsto> JStr ''worker-B'',
                          ''filename'' \<mapsto> JStr acme))) (JDate 1801003))
   \<and> getTask (snd (claimTask acme (JStr ''worker-B'') 1801002 1801003
             (snd (listTasksSync (Some ''research'') (Some ''pending'') True
                     (\<lambda>f. 1801001) claimed_disk)))) acme
        = Some (Obj (claimed_task(''status'' \<mapsto> JStr ''in_progress'',
                          ''claimed_at'' \<mapsto> JDate 1801003,
                          ''claimed_by'' \<mapsto> JStr ''worker-B'',
                          ''filename'' \<mapsto> JStr acme)))"
proof -
  have h1: "getTask claimed_disk acme = Some (Obj claimed_task)"
    by (simp add: claimed_disk_def getTask_acme)
  have h2: "claimed_task ''status'' = Some (JStr ''in_progress'')"
    by (simp add: claimed_task_def)
  have h3: "claimed_task ''claimed_at'' = Some (JDate 1000)"
    by (simp add: claimed_task_def)
  have h4: "1000 + STALE_LOCK_MS < (\<lambda>f. 1801001 :: int) acme"
    by (simp add: STALE_LOCK_MS_def)
  have h5: "endsWith acme ''.json''"
    by (simp add: endsWith_def acme_def)
  have h6: "CHR ''/'' \<notin> set acme"
    by (simp add: acme_def)
  have h7: "readdirSync claimed_disk = Some [acme]"
    by (simp add: claimed_disk_def readdir_acme)
  have h8: "\<forall>f \<in> set [acme]. endsWith f ''.json'' \<longrightarrow> getTask claimed_disk f \<noteq> Some Prim"
    by (simp add: h1)
  have h9: "\<not> truthy_string (Some ''research'')
            \<or> claimed_task ''type'' = map_option JStr (Some ''research'')"
    by (simp add: claimed_task_def acme_data_def)
  have h10: "\<not> truthy_string (Some ''pending'') \<or> Some ''pending'' = Some ''pending''"
    by simp
  have h11: "1000 + STALE_LOCK_MS < (1801002 :: int)"
    by (simp add: STALE_LOCK_MS_def)
  have h12: "writable claimed_disk (fst (taskPath claimed_disk acme))"
    by (simp add: claimed_disk_def writable_acme)
  have same: "snd (listTasksSync (Some ''research'') (Some ''pending'') True
             (\<lambda>f. 1801001) claimed_disk) = claimed_disk"
    by (rule listTasksSync_same)
  have l1: "fst (listTasksSync (Some ''research'') (Some ''pending'') True
             (\<lambda>f. 1801001) claimed_disk)
        = Inr [Obj (claimed_task(''filename'' \<mapsto> JStr acme, ''is_stale'' \<mapsto> JBool True))]"
    by (simp add: listTasksSync_dir [OF h7] h5 h1 list_entry_def effectiveStatus_def
        isLockStale_def STALE_LOCK_MS_def sort_cmp_def claimed_task_def acme_data_def)
  have l2: "fst (listTasksSync (Some ''research'') (Some ''in_progress'') True
             (\<lambda>f. 1801001) claimed_disk) = Inr []"
    by (simp add: listTasksSync_dir [OF h7] h5 h1 list_entry_def effectiveStatus_def
        isLockStale_def STALE_LOCK_MS_def sort_cmp_def claimed_task_def acme_data_def)
  show ?thesis
    using h1 h2 h3 h5 h6 h7 l1 l2
      stale_reclaim [OF h1 h2 h3 h4 h5 h6 h7 h8 h9 h10 h11 h12,
        of "JStr ''worker-B''" 1801003]
    by (simp add: same STALE_LOCK_MS_def)
qed

subsection \<open>Creation\<close>

text \<open>
  C4 (idempotent creation): on a key whose path does not exist and can be written,
  the first \<^verbatim>\<open>createTask\<close> returns \<^verbatim>\<open>already_exists: false\<close>, the second returns
  \<^verbatim>\<open>already_exists: true\<close> and leaves the file system as the first call left it; the
  stored record still has the \<^verbatim>\<open>createdAt\<close> and the payload of the first call.
\<close>

theorem createTask_idempotent:
  assumes "\<not> fileExists s (taskPath s filename)" and "writes_ok s (taskPath s filename)"
  shows "fst (createTask taskData filename now1 s) = Inr (CreateOk False filename)
    \<and> createTask taskData filename now2 (snd (createTask taskData filename now1 s))
        = (Inr (CreateOk True filename), snd (createTask taskData filename now1 s))
    \<and> getTask (snd (createTask taskData filename now2
                      (snd (createTask taskData filename now1 s)))) filename
        = Some (Obj (taskData(''createdAt'' \<mapsto> JDate now1, ''status'' \<mapsto> JStr ''pending'')))"
proof -
  let ?t = "taskData(''createdAt'' \<mapsto> JDate now1, ''status'' \<mapsto> JStr ''pending'')"
  obtain s1 where w: "writeJsonFile (taskPath s filename) (Obj ?t) s = Inr s1"
    using write_ok [OF assms(2)] by blast
  have c1: "createTask taskData filename now1 s = (Inr (CreateOk False filename), s1)"
    using assms(1) w by (simp add: createTask_def)
  have ex: "fileExists s1 (taskPath s1 filename)"
    using fileExists_write [OF w] taskPath_write [OF w] by simp
  have c2: "createTask taskData filename now2 s1 = (Inr (CreateOk True filename), s1)"
    using ex by (simp add: createTask_def)
  have g: "getTask s1 filename = Some (Obj ?t)"
    using getTask_write [OF w] by simp
  show ?thesis using c1 c2 g by simp
qed

theorem createTask_idempotent_witness:
  "\<not> fileExists empty_disk (taskPath empty_disk acme)
   \<and> writes_ok empty_disk (taskPath empty_disk acme)
   \<and> fst (createTask acme_data acme 500 empty_disk) = Inr (CreateOk False acme)
   \<and> createTask acme_data acme 900 (snd (createTask acme_data acme 500 empty_disk))
        = (Inr (CreateOk True acme), snd (createTask acme_data acme 500 empty_disk))
   \<and> getTask (snd (createTask acme_data acme 900
                     (snd (createTask acme_data acme 500 empty_disk)))) acme
        = Some (Obj (acme_data(''createdAt'' \<mapsto> JDate 500, ''status'' \<mapsto> JStr ''pending'')))"
proof -
  have h1: "\<not> fileExists empty_disk (taskPath empty_disk acme)"
    by (simp add: empty_disk_def taskPath_acme fileExists_acme)
  have h2: "writes_ok empty_disk (taskPath empty_disk acme)"
    by (simp add: empty_disk_def taskPath_acme writes_ok_acme)
  show ?thesis
    using h1 h2 createTask_idempotent [OF h1 h2, of acme_data 500 900] by blast
qed

text \<open>
  C10 as the code has it: a \<^verbatim>\<open>createTask\<close> that returns \<^verbatim>\<open>already_exists: false\<close> has
  stored a record whose status is pending and whose \<^verbatim>\<open>createdAt\<close> is the time of
  creation, whatever the payload gave for the two; every other field is the payload's,
  so the record carries no claim metadata when the payload carries none.
\<close>

theorem createTask_stored_record:
  assumes "fst (createTask taskData filename now s) = Inr (CreateOk False filename)"
  shows "\<exists>t. getTask (snd (createTask taskData filename now s)) filename = Some (Obj t)
    \<and> t ''status'' = Some (JStr ''pending'')
    \<and> t ''createdAt'' = Some (JDate now)
    \<and> (\<forall>k. k \<noteq> ''status'' \<and> k \<noteq> ''createdAt'' \<longrightarrow> t k = taskData k)
    \<and> (taskData ''claimed_at'' = None \<and> taskData ''claimed_by'' = None
         \<longrightarrow> t ''claimed_at'' = None \<and> t ''claimed_by'' = None)"
proof -
  let ?t = "taskData(''createdAt'' \<mapsto> JDate now, ''status'' \<mapsto> JStr ''pending'')"
  have nex: "\<not> fileExists s (taskPath s filename)" and wr: "writes_ok s (taskPath s filename)"
    using assms by (auto simp: createTask_def writeJsonFile_def Let_def split: if_splits)
  obtain s1 where w: "writeJsonFile (taskPath s filename) (Obj ?t) s = Inr s1"
    using write_ok [OF wr] by blast
  have "snd (createTask taskData filename now s) = s1"
    using nex w by (simp add: createTask_def)
  moreover have "getTask s1 filename = Some (Obj ?t)"
    using getTask_write [OF w] by simp
  ultimately show ?thesis by simp
qed

theorem createTask_stored_record_witness:
  "fst (createTask (acme_data(''status'' \<mapsto> JStr ''in_progress'', ''createdAt'' \<mapsto> JDate 1))
          acme 1000 empty_disk) = Inr (CreateOk False acme)
   \<and> getTask (snd (createTask
          (acme_data(''status'' \<mapsto> JStr ''in_progress'', ''createdAt'' \<mapsto> JDate 1))
          acme 1000 empty_disk)) acme
       = Some (Obj (acme_data(''createdAt'' \<mapsto> JDate 1000, ''status'' \<mapsto> JStr ''pending'')))"
proof -
  let ?d = "acme_data(''status'' \<mapsto> JStr ''in_progress'', ''createdAt'' \<mapsto> JDate 1)"
  have h: "fst (createTask ?d acme 1000 empty_disk) = Inr (CreateOk False acme)"
    by (simp add: createTask_def empty_disk_def taskPath_acme fileExists_acme
        writeJsonFile_def writes_ok_acme Let_def)
  from createTask_stored_record [OF h] obtain t where
    t: "getTask (snd (createTask ?d acme 1000 empty_disk)) acme = Some (Obj t)"
      "t ''status'' = Some (JStr ''pending'')" "t ''createdAt'' = Some (JDate 1000)"
      "\<forall>k. k \<noteq> ''status'' \<and> k \<noteq> ''createdAt'' \<longrightarrow> t k = ?d k"
    by blast
  have "t = acme_data(''createdAt'' \<mapsto> JDate 1000, ''status'' \<mapsto> JStr ''pending'')"
    using t(2,3,4) by (auto simp: fun_eq_iff)
  then show ?thesis using h t(1) by simp
qed

text \<open>
  C10 as stated fails: a payload with \<^verbatim>\<open>claimed_by\<close> and \<^verbatim>\<open>claimed_at\<close> is stored with
  both fields, next to the status pending.
\<close>

theorem createTask_claim_fields_counterexample:
  "fst (createTask (acme_data(''claimed_by'' \<mapsto> JStr ''worker-A'', ''claimed_at'' \<mapsto> JDate 5))
          acme 1000 empty_disk) = Inr (CreateOk False acme)
   \<and> getTask (snd (createTask
          (acme_data(''claimed_by'' \<mapsto> JStr ''worker-A'', ''claimed_at'' \<mapsto> JDate 5))
          acme 1000 empty_disk)) acme
       = Some (Obj (acme_data(''claimed_by'' \<mapsto> JStr ''worker-A'', ''claimed_at'' \<mapsto> JDate 5,
                 ''createdAt'' \<mapsto> JDate 1000, ''status'' \<mapsto> JStr ''pending'')))
   \<and> (acme_data(''claimed_by'' \<mapsto> JStr ''worker-A'', ''claimed_at'' \<mapsto> JDate 5,
                 ''createdAt'' \<mapsto> JDate 1000, ''status'' \<mapsto> JStr ''pending'')) ''claimed_by''
       = Some (JStr ''worker-A'')
   \<and> (acme_data(''claimed_by'' \<mapsto> JStr ''worker-A'', ''claimed_at'' \<mapsto> JDate 5,
                 ''createdAt'' \<mapsto> JDate 1000, ''status'' \<mapsto> JStr ''pending'')) ''claimed_at''
       = Some (JDate 5)"
  by (simp add: createTask_def empty_disk_def fileExists_acme writeJsonFile_def writes_ok_acme
      taskPath_acme update_acme getTask_acme Let_def)

subsection \<open>Completion, failures and release\<close>

text \<open>
  C5 (completion removes the record): after a \<^verbatim>\<open>completeTask\<close> that has succeeded,
  \<^verbatim>\<open>getTask\<close> of the key returns null, and \<^verbatim>\<open>createTask\<close> on the key returns
  \<^verbatim>\<open>already_exists: false\<close> and stores a new record.
\<close>

theorem complete_removes_record:
  assumes "fst (completeTask filename s) = Inr CompleteOk"
  shows "getTask (snd (completeTask filename s)) filename = None
    \<and> fst (createTask taskData filename now (snd (completeTask filename s)))
        = Inr (CreateOk False filename)
    \<and> getTask (snd (createTask taskData filename now (snd (completeTask filename s)))) filename
        = Some (Obj (taskData(''createdAt'' \<mapsto> JDate now, ''status'' \<mapsto> JStr ''pending'')))"
proof -
  let ?p = "taskPath s filename"
  let ?s1 = "s\<lparr>nodes := AList.delete (fst ?p) (nodes s)\<rparr>"
  have d: "deleteFile ?p s = (True, snd (completeTask filename s))"
    using assms
    by (auto simp: completeTask_def split: if_splits prod.splits)
  note f = deleteFile_True [OF d]
  have c: "snd (completeTask filename s) = ?s1" using f by simp
  have tp: "taskPath ?s1 filename = ?p" by (simp add: taskPath_def)
  have n: "node_at ?s1 (fst ?p) = None"
    using f by (simp add: node_at_def delete_conv')
  have nex: "\<not> fileExists ?s1 (taskPath ?s1 filename)"
    using n by (simp add: tp fileExists_def)
  have g: "getTask ?s1 filename = None"
    using nex by (simp add: getTask_def readJsonFile_def)
  have wr: "writes_ok ?s1 (taskPath ?s1 filename)"
    using f n by (simp add: tp writes_ok_def)
  obtain s2 where w: "writeJsonFile (taskPath ?s1 filename)
      (Obj (taskData(''createdAt'' \<mapsto> JDate now, ''status'' \<mapsto> JStr ''pending''))) ?s1 = Inr s2"
    using write_ok [OF wr] by blast
  have cr: "createTask taskData filename now ?s1 = (Inr (CreateOk False filename), s2)"
    using nex w by (simp add: createTask_def)
  have g2: "getTask s2 filename
      = Some (Obj (taskData(''createdAt'' \<mapsto> JDate now, ''status'' \<mapsto> JStr ''pending'')))"
    using getTask_write [OF w] by simp
  show ?thesis
    using g cr g2 by (simp add: c)
qed

theorem complete_removes_record_witness:
  "fst (completeTask acme claimed_disk) = Inr CompleteOk
   \<and> getTask (snd (completeTask acme claimed_disk)) acme = None
   \<and> fst (createTask acme_data acme 2000 (snd (completeTask acme claimed_disk)))
        = Inr (CreateOk False acme)
   \<and> getTask (snd (createTask acme_data acme 2000 (snd (completeTask acme claimed_disk)))) acme
        = Some (Obj (acme_data(''createdAt'' \<mapsto> JDate 2000, ''status'' \<mapsto> JStr ''pending'')))"
proof -
  have h: "fst (completeTask acme claimed_disk) = Inr CompleteOk"
    by (simp add: completeTask_def task_defs)
  show ?thesis
    using h complete_removes_record [OF h, of acme_data 2000] by blast
qed

text \<open>
  C6 (failures are results): on a key whose path does not exist, \<^verbatim>\<open>claimTask\<close>,
  \<^verbatim>\<open>completeTask\<close> and \<^verbatim>\<open>releaseTask\<close> return the failure \<^verbatim>\<open>Task not found\<close>; on a
  record that is in progress and not stale, \<^verbatim>\<open>claimTask\<close> returns the failure
  \<^verbatim>\<open>Task already claimed\<close> with the record's \<^verbatim>\<open>claimed_by\<close> and \<^verbatim>\<open>claimed_at\<close>. Each of
  these is a value returned (\<open>Inr\<close>), not an exception (\<open>Inl\<close>), whether or not the
  path can be written, and the file system is left as it was.
\<close>

theorem failures_are_results:
  "(\<not> fileExists s (taskPath s filename) \<longrightarrow>
        claimTask filename agentId now now' s = (Inr (Failure ''Task not found''), s)
      \<and> completeTask filename s = (Inr (Failure ''Task not found''), s)
      \<and> releaseTask filename s = (Inr (Failure ''Task not found''), s))
   \<and> (getTask s filename = Some t \<and> get_prop t ''status'' = Some (JStr ''in_progress'')
        \<and> \<not> isLockStale t now \<longrightarrow>
        claimTask filename agentId now now' s
          = (Inr (ClaimRefused ''Task already claimed''
                    (get_prop t ''claimed_by'') (get_prop t ''claimed_at'')), s))"
proof (intro conjI impI)
  assume "getTask s filename = Some t \<and> get_prop t ''status'' = Some (JStr ''in_progress'')
        \<and> \<not> isLockStale t now"
  then show "claimTask filename agentId now now' s
          = (Inr (ClaimRefused ''Task already claimed''
                    (get_prop t ''claimed_by'') (get_prop t ''claimed_at'')), s)"
    using getTask_fileExists [of s filename t]
    by (simp add: claimTask_def claimTask_read_def getTask_def)
qed (simp_all add: claimTask_def claimTask_read_def completeTask_def releaseTask_def)

theorem failures_are_results_witness:
  "\<not> fileExists empty_disk (taskPath empty_disk acme)
   \<and> claimTask acme (JStr ''worker-B'') 1500 1501 empty_disk
        = (Inr (Failure ''Task not found''), empty_disk)
   \<and> completeTask acme empty_disk = (Inr (Failure ''Task not found''), empty_disk)
   \<and> releaseTask acme empty_disk = (Inr (Failure ''Task not found''), empty_disk)
   \<and> getTask claimed_disk acme = Some (Obj claimed_task)
   \<and> get_prop (Obj claimed_task) ''status'' = Some (JStr ''in_progress'')
   \<and> \<not> isLockStale (Obj claimed_task) 1500
   \<and> claimTask acme (JStr ''worker-B'') 1500 1501 claimed_disk
        = (Inr (ClaimRefused ''Task already claimed''
                  (Some (JStr ''worker-A'')) (Some (JDate 1000))), claimed_disk)"
proof -
  have h1: "\<not> fileExists empty_disk (taskPath empty_disk acme)"
    by (simp add: empty_disk_def taskPath_acme fileExists_acme)
  have h2: "getTask claimed_disk acme = Some (Obj claimed_task)
      \<and> get_prop (Obj claimed_task) ''status'' = Some (JStr ''in_progress'')
      \<and> \<not> isLockStale (Obj claimed_task) 1500"
    by (simp add: claimed_disk_def getTask_acme claimed_task_def
        isLockStale_def STALE_LOCK_MS_def)
  have c: "get_prop (Obj claimed_task) ''claimed_by'' = Some (JStr ''worker-A'')
      \<and> get_prop (Obj claimed_task) ''claimed_at'' = Some (JDate 1000)"
    by (simp add: claimed_task_def)
  show ?thesis
    using h1 h2 c
      failures_are_results [where s = empty_disk and filename = acme
        and agentId = "JStr ''worker-B''" and now = 1500 and now' = 1501
        and t = "Obj claimed_task"]
      failures_are_results [where s = claimed_disk and filename = acme
        and agentId = "JStr ''worker-B''" and now = 1500 and now' = 1501
        and t = "Obj claimed_task"]
    by simp
qed

text \<open>
  C7 (release): on a record, whoever holds it, whose file can be written,
  \<^verbatim>\<open>releaseTask\<close> succeeds; the record then has the status pending, no \<^verbatim>\<open>claimed_at\<close>
  and no \<^verbatim>\<open>claimed_by\<close>, and its other fields and every other node of the file system
  are as before. On a record that is pending and has no claim fields the file system
  is unchanged. A failure returned by \<^verbatim>\<open>releaseTask\<close> means that the key has no record
  (\<^verbatim>\<open>getTask\<close> returns null), and the failure is \<^verbatim>\<open>Task not found\<close> exactly when the
  path of the key does not exist.
\<close>

theorem release_semantics:
  "(getTask s filename = Some (Obj t) \<and> writable s (fst (taskPath s filename)) \<longrightarrow>
        fst (releaseTask filename s) = Inr ReleaseOk
      \<and> getTask (snd (releaseTask filename s)) filename
          = Some (Obj ((t(''status'' \<mapsto> JStr ''pending''))
                         (''claimed_at'' := None, ''claimed_by'' := None)))
      \<and> (\<forall>p. p \<noteq> fst (taskPath s filename) \<longrightarrow>
            node_at (snd (releaseTask filename s)) p = node_at s p)
      \<and> (t ''status'' = Some (JStr ''pending'') \<and> t ''claimed_at'' = None
           \<and> t ''claimed_by'' = None \<longrightarrow> snd (releaseTask filename s) = s))
   \<and> (fst (releaseTask filename s) = Inr (Failure e) \<longrightarrow> getTask s filename = None)
   \<and> (fst (releaseTask filename s) = Inr (Failure ''Task not found'')
        \<longleftrightarrow> \<not> fileExists s (taskPath s filename))"
proof (intro conjI impI)
  assume a: "getTask s filename = Some (Obj t) \<and> writable s (fst (taskPath s filename))"
  let ?p = "taskPath s filename"
  let ?t' = "(t(''status'' \<mapsto> JStr ''pending''))(''claimed_at'' := None, ''claimed_by'' := None)"
  have rd: "readJsonFile s ?p = Some (Obj t)" using a by (simp add: getTask_def)
  have wr: "writes_ok s ?p" using a record_writes_ok [OF rd] by simp
  obtain s' where w: "writeJsonFile ?p (Obj ?t') s = Inr s'"
    using write_ok [OF wr] by blast
  have r: "releaseTask filename s = (Inr ReleaseOk, s')"
    using rd readJsonFile_fileExists [OF rd] w by (simp add: releaseTask_def)
  show "fst (releaseTask filename s) = Inr ReleaseOk" by (simp add: r)
  show "getTask (snd (releaseTask filename s)) filename = Some (Obj ?t')"
    using getTask_write [OF w] by (simp add: r)
  show "\<forall>p. p \<noteq> fst (taskPath s filename) \<longrightarrow>
            node_at (snd (releaseTask filename s)) p = node_at s p"
    using node_at_write [OF w] by (simp add: r)
  assume p: "t ''status'' = Some (JStr ''pending'') \<and> t ''claimed_at'' = None
           \<and> t ''claimed_by'' = None"
  have same: "?t' = t" using p by (auto simp: fun_eq_iff)
  from readJsonFile_node [OF rd] obtain c where
    c: "node_at s (fst ?p) = Some (File c)" "parse c = Some (Obj t)" "fst ?p \<noteq> []"
    by blast
  have "map_of (nodes s) (fst ?p) = Some (File (ObjectJson t))"
    using c parse_Obj [OF c(2)] by (simp add: node_at_def)
  then have "AList.update (fst ?p) (File (ObjectJson t)) (nodes s) = nodes s"
    by (rule update_triv)
  then have "s' = s"
    using w wr by (simp add: writeJsonFile_def same)
  then show "snd (releaseTask filename s) = s" by (simp add: r)
next
  assume "fst (releaseTask filename s) = Inr (Failure e)"
  then show "getTask s filename = None"
    by (auto simp: releaseTask_def getTask_def readJsonFile_def
        split: if_splits option.splits sum.splits)
next
  show "fst (releaseTask filename s) = Inr (Failure ''Task not found'')
        \<longleftrightarrow> \<not> fileExists s (taskPath s filename)"
    by (auto simp: releaseTask_def split: if_splits option.splits sum.splits)
qed

theorem release_semantics_witness:
  "getTask claimed_disk acme = Some (Obj claimed_task)
   \<and> writable claimed_disk (fst (taskPath claimed_disk acme))
   \<and> fst (releaseTask acme claimed_disk) = Inr ReleaseOk
   \<and> getTask (snd (releaseTask acme claimed_disk)) acme = Some (Obj pending_task)
   \<and> getTask pending_disk acme = Some (Obj pending_task)
   \<and> releaseTask acme pending_disk = (Inr ReleaseOk, pending_disk)
   \<and> fst (releaseTask acme empty_disk) = Inr (Failure ''Task not found'')
   \<and> \<not> fileExists empty_disk (taskPath empty_disk acme)
   \<and> getTask empty_disk acme = None"
proof -
  have h1: "getTask claimed_disk acme = Some (Obj claimed_task)
      \<and> writable claimed_disk (fst (taskPath claimed_disk acme))"
    by (simp add: claimed_disk_def getTask_acme writable_acme)
  have e: "(claimed_task(''status'' \<mapsto> JStr ''pending''))
             (''claimed_at'' := None, ''claimed_by'' := None) = pending_task"
    by (auto simp: claimed_task_def pending_task_def acme_data_def fun_eq_iff)
  have h2: "getTask pending_disk acme = Some (Obj pending_task)
      \<and> writable pending_disk (fst (taskPath pending_disk acme))"
    by (simp add: pending_disk_def getTask_acme writable_acme)
  have p: "pending_task ''status'' = Some (JStr ''pending'')
      \<and> pending_task ''claimed_at'' = None \<and> pending_task ''claimed_by'' = None"
    by (simp add: pending_task_def acme_data_def)
  have h3: "fst (releaseTask acme empty_disk) = Inr (Failure ''Task not found'')"
    by (simp add: releaseTask_def empty_disk_def taskPath_acme fileExists_acme)
  have r2: "releaseTask acme pending_disk = (Inr ReleaseOk, pending_disk)"
    using h2 p release_semantics [where s = pending_disk and filename = acme
        and t = pending_task]
    by (metis prod.collapse)
  show ?thesis
    using h1 e h2 h3 r2
      release_semantics [where s = claimed_disk and filename = acme and t = claimed_task]
      release_semantics [where s = empty_disk and filename = acme
        and e = "''Task not found''"]
    by simp
qed

subsection \<open>The event log\<close>

lemma length_slice0: "length (slice0 n xs) \<le> length xs"
  by (simp add: slice0_def min_def)

lemma set_slice0: "set (slice0 n xs) \<subseteq> set xs"
  by (auto simp: slice0_def dest: in_set_takeD)

lemma set_slice0_sort: "set (slice0 n (sort_cmp le xs)) \<subseteq> set xs"
  using set_slice0 [of n "sort_cmp le xs"] by (simp add: set_sort_cmp)

lemma length_slice0_sort: "length (slice0 n (sort_cmp le xs)) \<le> length xs"
  using length_slice0 [of n "sort_cmp le xs"] by (simp add: length_sort_cmp)

lemma fold_notify_eventStore:
  "eventStore (snd (fold (notify_one ev) ps acc)) = eventStore (snd acc)"
  by (induction ps arbitrary: acc)
     (auto simp: notify_one_def split: prod.splits option.splits)

lemma eventStore_notifyPollers: "eventStore (snd (notifyPollers ev s)) = eventStore s"
  by (simp add: notifyPollers_def fold_notify_eventStore)

lemma notify_one_resolved:
  "\<forall>r \<in> set (fst acc). snd r = [ev] \<Longrightarrow>
   \<forall>r \<in> set (fst (notify_one ev p acc)). snd r = [ev]"
  by (auto simp: notify_one_def split: prod.splits option.splits)

lemma fold_notify_resolved:
  "\<forall>r \<in> set (fst acc). snd r = [ev] \<Longrightarrow>
   \<forall>r \<in> set (fst (fold (notify_one ev) ps acc)). snd r = [ev]"
proof (induction ps arbitrary: acc)
  case Nil
  then show ?case by simp
next
  case (Cons p ps)
  show ?case
    using Cons.IH [OF notify_one_resolved [OF Cons.prems]] by simp
qed

lemma resolved_notifyPollers: "r \<in> set (fst (notifyPollers ev s)) \<Longrightarrow> snd r = [ev]"
  using fold_notify_resolved [of "([], s)" ev "pendingPolls s"]
  by (simp add: notifyPollers_def)

lemma eventStore_emit:
  "eventStore (snd (emit type pl newId now pnow s))
     = eventStore (pruneEvents pnow (s\<lparr>eventStore := eventStore s
         @ [\<lparr>event_id = newId, event_type = type, timestamp = now, payload = pl\<rparr>]\<rparr>))"
  by (simp add: emit_def Let_def split: prod.splits)
     (metis eventStore_notifyPollers snd_conv)

lemma resolved_emit:
  "r \<in> set (resolved (fst (emit type pl newId now pnow s))) \<Longrightarrow>
   snd r = [\<lparr>event_id = newId, event_type = type, timestamp = now, payload = pl\<rparr>]"
  by (auto simp: emit_def Let_def split: prod.splits)
     (metis resolved_notifyPollers fst_conv)

lemma emitted_event_emit:
  "emitted_event (fst (emit type pl newId now pnow s))
     = \<lparr>event_id = newId, event_type = type, timestamp = now, payload = pl\<rparr>"
  by (simp add: emit_def Let_def split: prod.splits)

lemma length_pruneEvents: "length (eventStore (pruneEvents now s)) \<le> MAX_EVENTS"
  by (simp add: pruneEvents_def Let_def)

lemma set_pruneEvents:
  "e \<in> set (eventStore (pruneEvents now s)) \<Longrightarrow>
   e \<in> set (eventStore s) \<and> now - EVENT_RETENTION_MS < timestamp e"
  by (auto simp: pruneEvents_def Let_def split: if_splits dest: in_set_dropD)

lemma new_event_kept:
  "now - EVENT_RETENTION_MS < timestamp ev \<Longrightarrow>
   ev \<in> set (eventStore (pruneEvents now (s\<lparr>eventStore := eventStore s @ [ev]\<rparr>)))"
  by (simp add: pruneEvents_def Let_def MAX_EVENTS_def)

lemma set_listEvents: "set (listEvents since type limit s) \<subseteq> set (eventStore s)"
  unfolding listEvents_def Let_def
  by (rule order_trans [OF set_slice0_sort]) (auto split: option.splits)

lemma length_listEvents: "length (listEvents since type limit s) \<le> length (eventStore s)"
  unfolding listEvents_def Let_def
  by (rule order_trans [OF length_slice0_sort])
     (auto split: option.splits intro: order_trans [OF length_filter_le length_filter_le])

lemma set_poll_events: "set (poll_events (fst (poll sid pid s))) \<subseteq> set (eventStore s)"
  by (auto simp: poll_def pendingEvents_def Let_def split: option.splits)

lemma find_None_id:
  "c \<notin> event_id ` set es \<Longrightarrow> find (\<lambda>e. Some (event_id e) = Some c) es = None"
  by (induction es) auto

lemma find_append_Some: "find P xs = Some x \<Longrightarrow> find P (xs @ ys) = Some x"
  by (induction xs) (auto split: if_splits)

lemma find_append_None: "find P xs = None \<Longrightarrow> find P (xs @ ys) = find P ys"
  by (induction xs) (auto split: if_splits)

lemma find_filter_Some: "find P xs = Some x \<Longrightarrow> Q x \<Longrightarrow> find P (filter Q xs) = Some x"
  by (induction xs) (auto split: if_splits)

lemma find_id_filter_None:
  "c \<notin> event_id ` set es \<Longrightarrow> find (\<lambda>e. event_id e = c) (filter Q es) = None"
  by (induction es) auto

lemma emit_no_polls:
  assumes "pendingPolls s = []"
  shows "snd (emit type pl newId now pnow s)
    = pruneEvents pnow (s\<lparr>eventStore := eventStore s
         @ [\<lparr>event_id = newId, event_type = type, timestamp = now, payload = pl\<rparr>]\<rparr>)"
  using assms by (simp add: emit_def notifyPollers_def pruneEvents_def Let_def)

lemma pruneEvents_room:
  assumes "length (eventStore s) \<le> MAX_EVENTS"
  shows "pruneEvents now s
    = s\<lparr>eventStore := filter (\<lambda>e. timestamp e > now - EVENT_RETENTION_MS) (eventStore s)\<rparr>"
proof -
  have "length (filter (\<lambda>e. timestamp e > now - EVENT_RETENTION_MS) (eventStore s))
      \<le> MAX_EVENTS"
    using assms by (rule order_trans [OF length_filter_le])
  then show ?thesis by (simp add: pruneEvents_def Let_def)
qed

lemmas bus_defs = empty_bus_def E0_def E1_def E2_def bus_subscribed_def bus_E0_def
  bus_cursor_E0_def bus_E1_def bus_E2_def subscribe_def emit_def poll_def pruneEvents_def
  notifyPollers_def notify_one_def notifyWebhooks_def EVENT_TYPES_def MAX_EVENTS_def
  EVENT_RETENTION_MS_def pendingEvents_def lastEventTime_def poll_timeout_def
  List.map_filter_simps Let_def

lemmas back_defs = Ea_def Eb_def Ec_def bus_Ea_def bus_Eb_def bus_cursor_Eb_def bus_Ec_def
  sub_S1_def

lemma poll_bus_Eb: "fst (poll ''S1'' ''p1'' bus_Eb) = PollEvents [Ea, Eb]"
  by (simp add: back_defs bus_defs)

lemma bus_cursor_Eb_eq:
  "bus_cursor_Eb = \<lparr>eventStore = [Ea, Eb], subscriptions = [(''S1'', sub_S1 (Some ''eb''))],
        pendingPolls = []\<rparr>"
  by (simp add: back_defs bus_defs)

lemma bus_Ec_eq:
  "bus_Ec = \<lparr>eventStore = [Ea, Ec], subscriptions = [(''S1'', sub_S1 (Some ''eb''))],
      pendingPolls = []\<rparr>"
  by (simp add: bus_Ec_def bus_cursor_Eb_eq)
     (simp add: back_defs emit_def pruneEvents_def notifyPollers_def EVENT_RETENTION_MS_def
        MAX_EVENTS_def Let_def)

text \<open>
  C8 (bounded event log): after \<^verbatim>\<open>emit\<close> the log holds at most \<open>MAX_EVENTS\<close> events,
  each with a timestamp later than the clock read by \<^verbatim>\<open>pruneEvents\<close> minus
  \<open>EVENT_RETENTION_MS\<close>, and holds nothing but events of the log before and the new
  event. What \<^verbatim>\<open>listEvents\<close> and \<^verbatim>\<open>poll\<close> return then are events of that log, so they
  are within the same bounds. A suspended poll that \<^verbatim>\<open>emit\<close> resolves receives the new
  event, which is in the log when its timestamp is within the window.
\<close>

theorem emit_bounds_log:
  "length (eventStore (snd (emit type pl newId now pnow s))) \<le> MAX_EVENTS
   \<and> (\<forall>e \<in> set (eventStore (snd (emit type pl newId now pnow s))).
         pnow - EVENT_RETENTION_MS < timestamp e)
   \<and> set (eventStore (snd (emit type pl newId now pnow s)))
        \<subseteq> insert (emitted_event (fst (emit type pl newId now pnow s))) (set (eventStore s))
   \<and> length (listEvents since ty limit (snd (emit type pl newId now pnow s))) \<le> MAX_EVENTS
   \<and> (\<forall>e \<in> set (listEvents since ty limit (snd (emit type pl newId now pnow s))).
         e \<in> set (eventStore (snd (emit type pl newId now pnow s)))
         \<and> pnow - EVENT_RETENTION_MS < timestamp e)
   \<and> length (poll_events (fst (poll sid pid (snd (emit type pl newId now pnow s)))))
        \<le> MAX_EVENTS
   \<and> (\<forall>e \<in> set (poll_events (fst (poll sid pid (snd (emit type pl newId now pnow s))))).
         e \<in> set (eventStore (snd (emit type pl newId now pnow s)))
         \<and> pnow - EVENT_RETENTION_MS < timestamp e)
   \<and> (\<forall>r \<in> set (resolved (fst (emit type pl newId now pnow s))).
         snd r = [emitted_event (fst (emit type pl newId now pnow s))])
   \<and> (pnow - EVENT_RETENTION_MS < now \<longrightarrow>
         emitted_event (fst (emit type pl newId now pnow s))
           \<in> set (eventStore (snd (emit type pl newId now pnow s))))"
proof -
  let ?s' = "snd (emit type pl newId now pnow s)"
  let ?ev = "\<lparr>event_id = newId, event_type = type, timestamp = now, payload = pl\<rparr>"
  have len: "length (eventStore ?s') \<le> MAX_EVENTS"
    by (simp add: eventStore_emit length_pruneEvents)
  have win: "pnow - EVENT_RETENTION_MS < timestamp e" if "e \<in> set (eventStore ?s')" for e
    using that by (auto simp: eventStore_emit dest: set_pruneEvents)
  have sub: "set (eventStore ?s') \<subseteq> insert ?ev (set (eventStore s))"
    by (auto simp: eventStore_emit dest!: set_pruneEvents)
  have llen: "length (listEvents since ty limit ?s') \<le> MAX_EVENTS"
    using length_listEvents [of since ty limit ?s'] len by simp
  have lset: "e \<in> set (eventStore ?s')" if "e \<in> set (listEvents since ty limit ?s')" for e
    using that set_listEvents by blast
  have plen: "length (poll_events (fst (poll sid pid ?s'))) \<le> MAX_EVENTS"
    using len
    by (auto simp: poll_def pendingEvents_def Let_def split: option.splits
        intro: order_trans [OF length_filter_le])
  have pset: "e \<in> set (eventStore ?s')" if "e \<in> set (poll_events (fst (poll sid pid ?s')))" for e
    using that set_poll_events by blast
  have res: "snd r = [?ev]" if "r \<in> set (resolved (fst (emit type pl newId now pnow s)))" for r
    using that by (rule resolved_emit)
  have new: "?ev \<in> set (eventStore ?s')" if "pnow - EVENT_RETENTION_MS < now"
    using that by (simp add: eventStore_emit new_event_kept)
  show ?thesis
    using len win sub llen lset plen pset res new by (simp add: emitted_event_emit)
qed

theorem emit_bounds_log_witness:
  "eventStore bus_cursor_Eb = [Ea, Eb]
   \<and> eventStore (snd (emit ''job.created'' Map.empty ''ec'' 3601001 3601001 bus_cursor_Eb))
        = [Ea, Ec]
   \<and> length (eventStore
        (snd (emit ''job.created'' Map.empty ''ec'' 3601001 3601001 bus_cursor_Eb)))
        \<le> MAX_EVENTS
   \<and> 3601001 - EVENT_RETENTION_MS < timestamp Ea
   \<and> 3601001 - EVENT_RETENTION_MS < timestamp Ec
   \<and> \<not> 3601001 - EVENT_RETENTION_MS < timestamp Eb
   \<and> listEvents None None 100
        (snd (emit ''job.created'' Map.empty ''ec'' 3601001 3601001 bus_cursor_Eb)) = [Ea, Ec]
   \<and> poll_events (fst (poll ''S1'' ''p2''
        (snd (emit ''job.created'' Map.empty ''ec'' 3601001 3601001 bus_cursor_Eb)))) = [Ea]"
proof -
  have s: "snd (emit ''job.created'' Map.empty ''ec'' 3601001 3601001 bus_cursor_Eb)
      = \<lparr>eventStore = [Ea, Ec], subscriptions = [(''S1'', sub_S1 (Some ''eb''))],
          pendingPolls = []\<rparr>"
    using bus_Ec_eq by (simp add: bus_Ec_def)
  have l: "listEvents None None 100
      \<lparr>eventStore = [Ea, Ec], subscriptions = [(''S1'', sub_S1 (Some ''eb''))],
          pendingPolls = []\<rparr> = [Ea, Ec]"
    by (simp add: listEvents_def sort_cmp_def slice0_def Ea_def Ec_def)
  have p: "poll_events (fst (poll ''S1'' ''p2''
      \<lparr>eventStore = [Ea, Ec], subscriptions = [(''S1'', sub_S1 (Some ''eb''))],
          pendingPolls = []\<rparr>)) = [Ea]"
    by (simp add: poll_def pendingEvents_def lastEventTime_def sub_S1_def Ea_def Ec_def)
  have c: "eventStore bus_cursor_Eb = [Ea, Eb]"
    by (simp add: bus_cursor_Eb_eq)
  show ?thesis
    using emit_bounds_log [of "''job.created''" Map.empty "''ec''" 3601001 3601001
        bus_cursor_Eb None None 100 "''S1''" "''p2''"]
    by (simp add: s c l p Eb_def EVENT_RETENTION_MS_def)
qed

text \<open>
  C9 (cursor whose event is gone): when the cursor of a subscription names an event
  that the log no longer holds, the events \<^verbatim>\<open>poll\<close> selects are all the events of the
  log whose type the subscription has, as for a subscription with no cursor; if there
  is one, \<^verbatim>\<open>poll\<close> returns them all at once, each of them whether or not an earlier
  poll has returned it, and if there is none the poll is suspended.
\<close>

theorem poll_dangling_cursor:
  assumes sub: "map_of (subscriptions s) sid = Some sub"
    and cur: "last_event_id sub = Some c"
    and gone: "c \<notin> event_id ` set (eventStore s)"
  shows "pendingEvents sub s
           = filter (\<lambda>e. event_type e \<in> set (event_types sub)) (eventStore s)
    \<and> pendingEvents sub s = pendingEvents (sub\<lparr>last_event_id := None\<rparr>) s
    \<and> (\<forall>e \<in> set (eventStore s). event_type e \<in> set (event_types sub) \<longrightarrow>
          fst (poll sid pid s) = PollEvents (pendingEvents sub s)
          \<and> e \<in> set (poll_events (fst (poll sid pid s))))
    \<and> (pendingEvents sub s = [] \<longrightarrow> fst (poll sid pid s) = PollSuspended pid)"
proof -
  have t: "lastEventTime sub s = None"
    using cur find_None_id [OF gone] by (simp add: lastEventTime_def)
  have p: "pendingEvents sub s
           = filter (\<lambda>e. event_type e \<in> set (event_types sub)) (eventStore s)"
    by (auto simp: pendingEvents_def t intro: filter_cong)
  have t0: "lastEventTime (sub\<lparr>last_event_id := None\<rparr>) s = None"
    by (simp add: lastEventTime_def)
  have q: "pendingEvents sub s = pendingEvents (sub\<lparr>last_event_id := None\<rparr>) s"
    by (simp add: pendingEvents_def t t0)
  have r: "fst (poll sid pid s) = PollEvents (pendingEvents sub s)
          \<and> e \<in> set (poll_events (fst (poll sid pid s)))"
    if "e \<in> set (eventStore s)" "event_type e \<in> set (event_types sub)" for e
  proof -
    have "e \<in> set (pendingEvents sub s)" using that by (simp add: p)
    then have "length (pendingEvents sub s) > 0" by (cases "pendingEvents sub s") auto
    then show ?thesis
      using sub \<open>e \<in> set (pendingEvents sub s)\<close> by (simp add: poll_def Let_def)
  qed
  have e: "fst (poll sid pid s) = PollSuspended pid" if "pendingEvents sub s = []"
    using that sub by (simp add: poll_def Let_def)
  show ?thesis using p q r e by blast
qed

theorem poll_dangling_cursor_witness:
  "map_of (subscriptions bus_Ec) ''S1'' = Some (sub_S1 (Some ''eb''))
   \<and> last_event_id (sub_S1 (Some ''eb'')) = Some ''eb''
   \<and> ''eb'' \<notin> event_id ` set (eventStore bus_Ec)
   \<and> Ea \<in> set (poll_events (fst (poll ''S1'' ''p1'' bus_Eb)))
   \<and> Ea \<in> set (eventStore bus_Ec)
   \<and> event_type Ea \<in> set (event_types (sub_S1 (Some ''eb'')))
   \<and> fst (poll ''S1'' ''p2'' bus_Ec) = PollEvents [Ea]
   \<and> Ea \<in> set (poll_events (fst (poll ''S1'' ''p2'' bus_Ec)))"
proof -
  have h1: "map_of (subscriptions bus_Ec) ''S1'' = Some (sub_S1 (Some ''eb''))"
    by (simp add: bus_Ec_eq)
  have h2: "last_event_id (sub_S1 (Some ''eb'')) = Some ''eb''"
    by (simp add: sub_S1_def)
  have h3: "''eb'' \<notin> event_id ` set (eventStore bus_Ec)"
    by (simp add: bus_Ec_eq Ea_def Ec_def)
  have d: "Ea \<in> set (poll_events (fst (poll ''S1'' ''p1'' bus_Eb)))"
    by (simp add: poll_bus_Eb)
  have m: "Ea \<in> set (eventStore bus_Ec)
      \<and> event_type Ea \<in> set (event_types (sub_S1 (Some ''eb'')))"
    by (simp add: bus_Ec_eq Ea_def sub_S1_def)
  have f: "filter (\<lambda>e. event_type e \<in> set (event_types (sub_S1 (Some ''eb''))))
      (eventStore bus_Ec) = [Ea]"
    by (simp add: bus_Ec_eq Ea_def Ec_def sub_S1_def)
  show ?thesis
    using h1 h2 h3 d m f poll_dangling_cursor [OF h1 h2 h3, of "''p2''"]
    by (metis (no_types, lifting))
qed

text \<open>
  Polling after \<open>E1\<close> and \<open>E2\<close> when \<open>E1\<close> has a later timestamp than the cursor's
  event \<open>e0\<close>: with no poll pending, no subscribed event of the log later than \<open>e0\<close>,
  \<open>e0\<close> within the retention window and room in the log, the poll returns \<open>E1\<close> alone
  and moves the cursor to it; the next poll is suspended, and resolved with no events
  when its timer fires.
\<close>

lemma poll_once_when_later:
  assumes sub: "map_of (subscriptions s) sid = Some sub"
    and cur: "last_event_id sub = Some c" "c \<noteq> []"
    and e0: "find (\<lambda>e. Some (event_id e) = Some c) (eventStore s) = Some e0"
    and old: "\<forall>e \<in> set (eventStore s).
        event_type e \<in> set (event_types sub) \<longrightarrow> timestamp e \<le> timestamp e0"
    and nopoll: "pendingPolls s = []"
    and ty1: "ty1 \<in> set (event_types sub)"
    and ty2: "ty2 \<notin> set (event_types sub)"
    and fresh: "id1 \<noteq> []" "id1 \<notin> event_id ` set (eventStore s)"
    and later: "timestamp e0 < now1"
    and keep: "pnow1 - EVENT_RETENTION_MS < timestamp e0"
      "pnow2 - EVENT_RETENTION_MS < timestamp e0"
    and room: "length (eventStore s) + 2 \<le> MAX_EVENTS"
    and s2: "s2 = snd (emit ty2 pl2 id2 now2 pnow2 (snd (emit ty1 pl1 id1 now1 pnow1 s)))"
  shows "fst (poll sid p1 s2)
      = PollEvents [\<lparr>event_id = id1, event_type = ty1, timestamp = now1, payload = pl1\<rparr>]
    \<and> map_option last_event_id (map_of (subscriptions (snd (poll sid p1 s2))) sid)
      = Some (Some id1)
    \<and> fst (poll sid p2 (snd (poll sid p1 s2))) = PollSuspended p2
    \<and> fst (poll_timeout p2 (snd (poll sid p2 (snd (poll sid p1 s2))))) = Some (PollEvents [])"
proof -
  let ?E1 = "\<lparr>event_id = id1, event_type = ty1, timestamp = now1, payload = pl1\<rparr>"
  let ?E2 = "\<lparr>event_id = id2, event_type = ty2, timestamp = now2, payload = pl2\<rparr>"
  let ?Q1 = "\<lambda>e. timestamp e > pnow1 - EVENT_RETENTION_MS"
  let ?Q2 = "\<lambda>e. timestamp e > pnow2 - EVENT_RETENTION_MS"
  let ?old = "filter ?Q2 (filter ?Q1 (eventStore s))"
  let ?s1 = "snd (emit ty1 pl1 id1 now1 pnow1 s)"
  have s1: "?s1 = s\<lparr>eventStore := filter ?Q1 (eventStore s) @ [?E1]\<rparr>"
    using room later keep(1)
    by (simp add: emit_no_polls [OF nopoll] pruneEvents_room)
  have "length (filter ?Q1 (eventStore s)) + 2 \<le> MAX_EVENTS"
    by (rule order_trans [OF _ room]) (simp del: One_nat_def)
  then have len1: "length (eventStore ?s1 @ [?E2]) \<le> MAX_EVENTS"
    by (simp add: s1)
  have store: "eventStore s2 = ?old @ [?E1] @ filter ?Q2 [?E2]"
    and subs: "subscriptions s2 = subscriptions s" and polls: "pendingPolls s2 = []"
    using len1 later keep nopoll
    by (simp_all add: s2 emit_no_polls s1 pruneEvents_room)
  have find0: "find (\<lambda>e. Some (event_id e) = Some c) (eventStore s2) = Some e0"
    unfolding store
    by (intro find_append_Some find_filter_Some e0 keep)
  have let0: "lastEventTime sub s2 = Some (timestamp e0)"
    using cur find0 by (simp add: lastEventTime_def)
  have oldR: "filter (\<lambda>e. if event_type e \<notin> set (event_types sub) then False
        else (case Some t of None \<Rightarrow> True
              | Some t \<Rightarrow> if timestamp e \<le> t then False else True)) ?old = []"
    if "timestamp e0 \<le> t" for t
    unfolding filter_empty_conv
  proof
    fix x assume "x \<in> set ?old"
    then have x: "x \<in> set (eventStore s)" by simp
    show "\<not> (if event_type x \<notin> set (event_types sub) then False
        else (case Some t of None \<Rightarrow> True
              | Some t \<Rightarrow> if timestamp x \<le> t then False else True))"
    proof (cases "event_type x \<in> set (event_types sub)")
      case True
      with old x have "timestamp x \<le> timestamp e0" by blast
      with that True show ?thesis by simp
    next
      case False
      then show ?thesis by simp
    qed
  qed
  have pend: "pendingEvents sub s2 = [?E1]"
    unfolding pendingEvents_def let0 store filter_append oldR [OF order_refl]
    using ty1 ty2 later by simp
  have p1: "poll sid p1 s2 = (PollEvents [?E1],
      s2\<lparr>subscriptions := AList.update sid (sub\<lparr>last_event_id := Some id1\<rparr>)
            (subscriptions s2)\<rparr>)"
    using sub by (simp add: poll_def subs pend)
  let ?s3 = "s2\<lparr>subscriptions := AList.update sid (sub\<lparr>last_event_id := Some id1\<rparr>)
            (subscriptions s2)\<rparr>"
  let ?sub' = "sub\<lparr>last_event_id := Some id1\<rparr>"
  have sub': "map_of (subscriptions ?s3) sid = Some ?sub'"
    by (simp add: update_conv')
  have find1: "find (\<lambda>e. Some (event_id e) = Some id1) (eventStore ?s3) = Some ?E1"
    by (simp add: store find_append_None find_id_filter_None fresh)
  have let1: "lastEventTime ?sub' ?s3 = Some now1"
    using fresh(1) find1 by (simp add: lastEventTime_def)
  have pend2: "pendingEvents ?sub' ?s3 = []"
    unfolding pendingEvents_def let1 
    using oldR [of now1] ty2 later by (simp add: store)
  have p2: "poll sid p2 ?s3 = (PollSuspended p2,
      ?s3\<lparr>pendingPolls := AList.update p2 sid (pendingPolls ?s3)\<rparr>)"
    using sub' by (simp add: poll_def pend2 del: map_of_eq_Some_iff)
  show ?thesis
    by (simp add: p1 p2 polls poll_timeout_def update_conv')
qed

text \<open>
  C2 (a poll delivers each event once): the code does not have the property when \<open>E1\<close>
  is emitted in the millisecond of \<open>E0\<close>. The first poll returns \<open>E0\<close> and puts the
  cursor there; \<open>E1\<close> (subscribed type) and \<open>E2\<close> (another type) are emitted with the
  timestamp of \<open>E0\<close> and are in the log; the next poll selects the events later than
  \<open>E0\<close>, finds none, is suspended and is resolved with no events when its timer fires.
  The cursor stays at \<open>E0\<close>: \<open>E1\<close> is not delivered.
\<close>

theorem same_ms_event_lost:
  "fst (poll ''S1'' ''p1'' bus_E0) = PollEvents [E0]
   \<and> map_option last_event_id (map_of (subscriptions bus_cursor_E0) ''S1'') = Some (Some ''e0'')
   \<and> eventStore bus_E2 = [E0, E1, E2]
   \<and> fst (poll ''S1'' ''p2'' bus_E2) = PollSuspended ''p2''
   \<and> fst (poll_timeout ''p2'' (snd (poll ''S1'' ''p2'' bus_E2))) = Some (PollEvents [])
   \<and> map_option last_event_id
        (map_of (subscriptions (snd (poll_timeout ''p2'' (snd (poll ''S1'' ''p2'' bus_E2))))) ''S1'')
       = Some (Some ''e0'')"
  by (simp add: bus_defs)

end
